theory Spec2Isabelle
  imports Main
begin

section \<open>The GitHub connector of dex: a shallow embedding\<close>

text \<open>
  The connector (package \<open>github\<close>) turns an OAuth2 code exchange against GitHub into
  an identity with an email and a list of groups. Go strings are byte strings and are
  modelled as \<open>string\<close>; Go's \<open>int\<close> is modelled as \<open>int\<close> (only \<open>strconv.Itoa\<close>
  and \<open>%d\<close> read it). Errors are values of the type \<open>error\<close>; a function that can
  fail returns \<open>error + 'a\<close>.
\<close>

subsection \<open>Strings\<close>

text \<open>\<open>strings.Split(s, ".")\<close> for a one-byte separator: \<open>n\<close> separators give
  \<open>n + 1\<close> pieces, and the empty string gives one empty piece.\<close>

fun Split :: "char \<Rightarrow> string \<Rightarrow> string list" where
  "Split sep [] = [[]]"
| "Split sep (x # xs) =
     (if x = sep then [] # Split sep xs
      else (case Split sep xs of
              [] \<Rightarrow> [[x]]
            | piece # pieces \<Rightarrow> (x # piece) # pieces))"

text \<open>\<open>strings.Cut(s, "@")\<close>: the text before and after the first separator, and
  whether the separator was found.\<close>

definition Cut :: "char \<Rightarrow> string \<Rightarrow> string \<times> string \<times> bool" where
  "Cut sep s =
     (if sep \<in> set s
      then (takeWhile (\<lambda>x. x \<noteq> sep) s, tl (dropWhile (\<lambda>x. x \<noteq> sep) s), True)
      else (s, [], False))"

text \<open>\<open>strconv.Itoa\<close> and the verb \<open>%d\<close>: decimal digits, with a sign.\<close>

fun digits :: "nat \<Rightarrow> string" where
  "digits n =
     (if n < 10 then [''0123456789'' ! n]
      else digits (n div 10) @ [''0123456789'' ! (n mod 10)])"

declare digits.simps [simp del]

definition itoa :: "int \<Rightarrow> string" where
  "itoa i = (if i < 0 then CHR ''-'' # digits (nat (- i)) else digits (nat i))"

subsection \<open>The pagination patterns\<close>

text \<open>
  \<open>reNext\<close> and \<open>reLast\<close> are the regular expressions
  \<^verbatim>\<open><([^>]+)>; rel="next"\<close> and \<^verbatim>\<open><([^>]+)>; rel="last"\<close>.
  \<open>FindStringSubmatch\<close> returns the leftmost match and its group. A match that starts
  at a given \<open><\<close> is unique: the group cannot hold a \<open>>\<close> and is followed by one, so it
  is the text up to the next \<open>>\<close>, which must not be empty. \<open>matchAt\<close> is the match at
  the head of the text, \<open>findSubmatch\<close> tries every start from the left and returns the
  group, \<open>None\<close> standing for Go's \<open>nil\<close> slice.
\<close>

definition relSuffix :: "string \<Rightarrow> string" where
  "relSuffix rel = ''>; rel='' @ [CHR 0x22] @ rel @ [CHR 0x22]"

definition matchAt :: "string \<Rightarrow> string \<Rightarrow> string option" where
  "matchAt rel s =
     (case s of
        [] \<Rightarrow> None
      | c # r \<Rightarrow>
          if c \<noteq> CHR ''<'' then None
          else
            let u = takeWhile (\<lambda>x. x \<noteq> CHR ''>'') r;
                rest = dropWhile (\<lambda>x. x \<noteq> CHR ''>'') r
            in if u \<noteq> [] \<and> take (length (relSuffix rel)) rest = relSuffix rel
               then Some u else None)"

fun findSubmatch :: "string \<Rightarrow> string \<Rightarrow> string option" where
  "findSubmatch rel [] = None"
| "findSubmatch rel (c # r) =
     (case matchAt rel (c # r) of
        Some u \<Rightarrow> Some u
      | None \<Rightarrow> findSubmatch rel r)"

definition reNext :: "string \<Rightarrow> string option" where
  "reNext = findSubmatch ''next''"

definition reLast :: "string \<Rightarrow> string option" where
  "reLast = findSubmatch ''last''"

subsection \<open>Configuration\<close>

record Org =
  Org_Name :: string
  Org_Teams :: "string list"

text \<open>The connector; \<open>httpClient\<close> tells whether the connector holds an HTTP client of
  its own (the pointer is not \<open>nil\<close>), which \<open>Open\<close> builds when a root certificate is
  configured.\<close>

record githubConnector =
  redirectURI :: string
  org :: string
  orgs :: "Org list"
  clientID :: string
  clientSecret :: string
  apiURL :: string
  hostName :: string
  rootCA :: string
  httpClient :: bool
  teamNameField :: string
  loadAllGroups :: bool
  useLoginAsID :: bool
  preferredEmailDomain :: string
  noreplyPrivateEmail :: bool

subsection \<open>The preferred email domain\<close>

text \<open>The loop of \<open>isPreferredEmailDomain\<close> over the labels of the configured domain,
  from index \<open>i\<close>: it reads \<open>domainParts[i]\<close>, which is in range because the caller
  has compared the two lengths.\<close>

fun labelsMatch :: "nat \<Rightarrow> string list \<Rightarrow> string list \<Rightarrow> bool" where
  "labelsMatch i [] domainParts = True"
| "labelsMatch i (v # vs) domainParts =
     (if domainParts ! i \<noteq> v \<and> v \<noteq> ''*'' then False
      else labelsMatch (Suc i) vs domainParts)"

definition isPreferredEmailDomain :: "githubConnector \<Rightarrow> string \<Rightarrow> bool" where
  "isPreferredEmailDomain c domain =
     (if domain = preferredEmailDomain c then True
      else
        let preferredDomainParts = Split CHR ''.'' (preferredEmailDomain c);
            domainParts = Split CHR ''.'' domain
        in if length preferredDomainParts \<noteq> length domainParts then False
           else labelsMatch 0 preferredDomainParts domainParts)"

text \<open>The comparator as the specification words it: literal equality, or equally many
  labels with each configured label equal to the candidate's or the wildcard.\<close>

definition domainGlobSpec :: "string \<Rightarrow> string \<Rightarrow> bool" where
  "domainGlobSpec glob domain =
     (domain = glob \<or>
      (length (Split CHR ''.'' glob) = length (Split CHR ''.'' domain) \<and>
       list_all2 (\<lambda>g d. g = d \<or> g = ''*'') (Split CHR ''.'' glob) (Split CHR ''.'' domain)))"

subsection \<open>Responses and pagination\<close>

text \<open>What the connector reads of an \<open>http.Response\<close>: the status code, the status
  line, the body (\<open>Inl\<close> when reading it fails, with the reader's message) and the
  value of the \<open>Link\<close> header (empty when the header is absent).\<close>

record response =
  StatusCode :: int
  Status :: string
  Body :: "string + string"
  Link :: string

text \<open>\<open>getPagination\<close>; \<open>None\<close> is the \<open>nil\<close> response. A match of \<open>reLast\<close>
  has two elements, the whole match and the group, so \<open>len(...) > 1\<close> holds exactly
  when there is a match.\<close>

definition getPagination :: "string \<Rightarrow> response option \<Rightarrow> string" where
  "getPagination url resp =
     (case resp of
        None \<Rightarrow> []
      | Some r \<Rightarrow>
          let links = Link r in
          (case reLast links of
             None \<Rightarrow> []
           | Some lastPageURL \<Rightarrow>
               if url = lastPageURL then []
               else (case reNext links of
                       Some nextPageURL \<Rightarrow> nextPageURL
                     | None \<Rightarrow> [])))"

text \<open>The grammar of the header, for stating what the patterns find: entries
  \<^verbatim>\<open><url>; rel="name"\<close> separated by a comma and a space.\<close>

definition linkEntry :: "string \<times> string \<Rightarrow> string" where
  "linkEntry e = CHR ''<'' # fst e @ relSuffix (snd e)"

fun linkHeader :: "(string \<times> string) list \<Rightarrow> string" where
  "linkHeader [] = []"
| "linkHeader [e] = linkEntry e"
| "linkHeader (e # es) = linkEntry e @ '', '' @ linkHeader es"

text \<open>The URL of the first entry with a given relation.\<close>

fun relURL :: "string \<Rightarrow> (string \<times> string) list \<Rightarrow> string option" where
  "relURL rel [] = None"
| "relURL rel (e # es) = (if snd e = rel then Some (fst e) else relURL rel es)"

text \<open>An entry is well formed when its URL is not empty and has no angle bracket, and
  its relation name has no angle bracket and no double quote.\<close>

definition wellFormedEntry :: "string \<times> string \<Rightarrow> bool" where
  "wellFormedEntry e =
     (fst e \<noteq> [] \<and> CHR ''<'' \<notin> set (fst e) \<and> CHR ''>'' \<notin> set (fst e) \<and>
      CHR ''<'' \<notin> set (snd e) \<and> CHR ''>'' \<notin> set (snd e) \<and> CHR 0x22 \<notin> set (snd e))"

subsection \<open>Errors\<close>

text \<open>
  Every error the connector builds, one constructor for each format string; an error of
  a library (transport, reader, JSON, URL parsing, token exchange) is \<open>External\<close> with
  its message. A constructor that wraps another error stands for \<open>fmt.Errorf\<close> with
  \<open>%v\<close>.
\<close>

datatype error =
    External string
  | NewReq error
  | GetURL error
  | ReadBody error
  | BadStatus string string
  | DecodeFailed error
  | GetOrgs error
  | GetTeams error
  | GetUser error
  | GetToken error
  | UnexpectedStatus string
  | NotInRequiredOrgs string
  | InvalidEmailFormat
  | NoUsableEmail
  | OAuth2Error string string
  | NoAccessToken
  | UnmarshalToken error
  | MarshalData error
  | BothOrgAndOrgs
  | InvalidHostname
  | RootCARequiresHost
  | HTTPClientFailed error
  | UnsupportedTeamNameField string
  | InvalidPreferredEmailDomain

subsection \<open>The upstream\<close>

text \<open>The JSON shapes the connector decodes.\<close>

record user =
  user_Name :: string
  user_Login :: string
  user_ID :: int
  user_Email :: string

record userEmail =
  Email :: string
  Verified :: bool
  Primary :: bool
  Visibility :: string

record org =
  org_Login :: string

record team =
  team_Name :: string
  team_Org :: org
  team_Slug :: string

record connectorData =
  AccessToken :: string

text \<open>An HTTP client made by the oauth2 package: it sends the access token with every
  request; \<open>customTransport\<close> tells whether the context it was made from carried the
  connector's own HTTP client (the one that trusts the configured root certificate).\<close>

record client =
  clientToken :: string
  customTransport :: bool

text \<open>What \<open>oauth2Config\<close> builds.\<close>

record oauth2Config =
  ClientID :: string
  ClientSecret :: string
  AuthURL :: string
  TokenURL :: string
  Scopes :: "string list"
  RedirectURL :: string

text \<open>
  The world outside the connector: \<open>newRequest\<close> is the error of \<open>http.NewRequest\<close>
  for a URL (\<open>None\<close> when the URL parses), \<open>roundTrip\<close> is \<open>client.Do\<close> (a transport
  error or a response), the decoders are \<open>encoding/json\<close> at each shape the connector
  decodes into, \<open>exchange\<close> is the code exchange of the oauth2 package (the second
  argument tells whether the context carries the custom HTTP client), and
  \<open>unmarshalData\<close> and \<open>marshalData\<close> are \<open>encoding/json\<close> on the connector data,
  and \<open>newHTTPClient\<close> is the error of \<open>httpclient.NewHTTPClient\<close> for a root
  certificate (\<open>None\<close> when the client is built).
  The upstream answers a given request the same way throughout one call of the connector.
\<close>

record world =
  newRequest :: "string \<Rightarrow> string option"
  roundTrip :: "client \<Rightarrow> string \<Rightarrow> string + response"
  decodeUser :: "string \<Rightarrow> string + user"
  decodeEmails :: "string \<Rightarrow> string + userEmail list"
  decodeOrgs :: "string \<Rightarrow> string + org list"
  decodeTeams :: "string \<Rightarrow> string + team list"
  exchange :: "oauth2Config \<Rightarrow> bool \<Rightarrow> string \<Rightarrow> string + string"
  unmarshalData :: "string \<Rightarrow> string + connectorData"
  marshalData :: "connectorData \<Rightarrow> string + string"
  newHTTPClient :: "string \<Rightarrow> string option"

subsection \<open>The fetch of one page\<close>

text \<open>\<open>get\<close>: the decoded value (the source writes it through the pointer \<open>v\<close>) and
  the URL of the next page. A body that cannot be read fails the decoder.\<close>

definition get :: "world \<Rightarrow> (string \<Rightarrow> string + 'a) \<Rightarrow> client \<Rightarrow> string \<Rightarrow> error + ('a \<times> string)" where
  "get w decode cl url =
     (case newRequest w url of
        Some m \<Rightarrow> Inl (NewReq (External m))
      | None \<Rightarrow>
          (case roundTrip w cl url of
             Inl m \<Rightarrow> Inl (GetURL (External m))
           | Inr resp \<Rightarrow>
               if StatusCode resp \<noteq> 200 then
                 (case Body resp of
                    Inl m \<Rightarrow> Inl (ReadBody (External m))
                  | Inr body \<Rightarrow> Inl (BadStatus (Status resp) body))
               else
                 (case Body resp of
                    Inl m \<Rightarrow> Inl (DecodeFailed (External m))
                  | Inr body \<Rightarrow>
                      (case decode body of
                         Inl m \<Rightarrow> Inl (DecodeFailed (External m))
                       | Inr v \<Rightarrow> Inr (v, getPagination url (Some resp))))))"

subsection \<open>Pages that follow one another\<close>

text \<open>
  Each crawl of the source is a loop \<open>for { get; ...; if apiURL == "" { break } }\<close>.
  Nothing bounds the number of pages: an upstream whose "next" links never end keeps the
  loop running. The loops are therefore defined with a bound on the number of pages they
  may fetch; \<open>None\<close> says that the bound was reached before the last page, and
  \<open>Some\<close> is what the loop returns.
\<close>

text \<open>The inner loop of \<open>userEmail\<close> over the emails of one page; the state is the
  primary email and the preferred emails found so far.\<close>

fun scanEmails ::
  "githubConnector \<Rightarrow> userEmail list \<Rightarrow> userEmail \<Rightarrow> userEmail list
     \<Rightarrow> error + (userEmail \<times> userEmail list)" where
  "scanEmails c [] primaryEmail preferredEmails = Inr (primaryEmail, preferredEmails)"
| "scanEmails c (e # rest) primaryEmail preferredEmails =
     (let email = (if hostName c \<noteq> [] then e\<lparr>Verified := True\<rparr> else e);
          primaryEmail' = (if Verified email \<and> Primary email then email else primaryEmail)
      in if preferredEmailDomain c \<noteq> [] then
           (case Cut CHR ''@'' (Email email) of
              (before, domainPart, ok) \<Rightarrow>
                if \<not> ok then Inl InvalidEmailFormat
                else scanEmails c rest primaryEmail'
                       (if Verified email \<and> isPreferredEmailDomain c domainPart
                        then preferredEmails @ [email] else preferredEmails))
         else scanEmails c rest primaryEmail' preferredEmails)"

text \<open>The zero value of \<open>userEmail\<close>, which \<open>primaryEmail\<close> starts as.\<close>

definition zeroUserEmail :: userEmail where
  "zeroUserEmail = \<lparr>Email = [], Verified = False, Primary = False, Visibility = []\<rparr>"

text \<open>The choice after the loop of \<open>userEmail\<close>.\<close>

definition chooseEmail :: "userEmail \<Rightarrow> userEmail list \<Rightarrow> error + string" where
  "chooseEmail primaryEmail preferredEmails =
     (case preferredEmails of
        p # ps \<Rightarrow> Inr (Email p)
      | [] \<Rightarrow> if Email primaryEmail \<noteq> [] then Inr (Email primaryEmail)
              else Inl NoUsableEmail)"

fun userEmailLoop ::
  "nat \<Rightarrow> githubConnector \<Rightarrow> world \<Rightarrow> client \<Rightarrow> string \<Rightarrow> userEmail \<Rightarrow> userEmail list
     \<Rightarrow> (error + string) option" where
  "userEmailLoop 0 c w cl url primaryEmail preferredEmails = None"
| "userEmailLoop (Suc n) c w cl url primaryEmail preferredEmails =
     (case get w (decodeEmails w) cl url of
        Inl err \<Rightarrow> Some (Inl err)
      | Inr (emails, next) \<Rightarrow>
          (case scanEmails c emails primaryEmail preferredEmails of
             Inl err \<Rightarrow> Some (Inl err)
           | Inr (primaryEmail', preferredEmails') \<Rightarrow>
               if next = [] then Some (chooseEmail primaryEmail' preferredEmails')
               else userEmailLoop n c w cl next primaryEmail' preferredEmails'))"

definition userEmail :: "nat \<Rightarrow> githubConnector \<Rightarrow> world \<Rightarrow> client \<Rightarrow> (error + string) option" where
  "userEmail n c w cl = userEmailLoop n c w cl (apiURL c @ ''/user/emails'') zeroUserEmail []"

text \<open>\<open>user\<close>: the profile, with the email resolved. The profile is one request
  outside any loop; the bound \<open>n\<close> is for the crawl of the emails only.\<close>

definition noreplyEmail :: "user \<Rightarrow> string" where
  "noreplyEmail u = itoa (user_ID u) @ ''+'' @ user_Login u @ ''@users.noreply.github.com''"

definition user :: "nat \<Rightarrow> githubConnector \<Rightarrow> world \<Rightarrow> client \<Rightarrow> (error + user) option" where
  "user n c w cl =
     (case get w (decodeUser w) cl (apiURL c @ ''/user'') of
        Inl err \<Rightarrow> Some (Inl err)
      | Inr (u, next) \<Rightarrow>
          if noreplyPrivateEmail c \<and> (hostName c = [] \<or> hostName c = ''github.com'')
          then Some (Inr (u\<lparr>user_Email := noreplyEmail u\<rparr>))
          else if user_Email u = [] \<or> preferredEmailDomain c \<noteq> [] then
            (case userEmail n c w cl of
               None \<Rightarrow> None
             | Some (Inl err) \<Rightarrow> Some (Inl err)
             | Some (Inr email) \<Rightarrow> Some (Inr (u\<lparr>user_Email := email\<rparr>)))
          else Some (Inr u))"

text \<open>The items of all pages from a URL on, in page order: what a crawl reads when
  nothing fails. It is used to state what the loops compute.\<close>

fun crawl ::
  "nat \<Rightarrow> world \<Rightarrow> (string \<Rightarrow> string + 'a list) \<Rightarrow> client \<Rightarrow> string \<Rightarrow> (error + 'a list) option" where
  "crawl 0 w decode cl url = None"
| "crawl (Suc n) w decode cl url =
     (case get w decode cl url of
        Inl err \<Rightarrow> Some (Inl err)
      | Inr (items, next) \<Rightarrow>
          if next = [] then Some (Inr items)
          else (case crawl n w decode cl next of
                  None \<Rightarrow> None
                | Some (Inl err) \<Rightarrow> Some (Inl err)
                | Some (Inr others) \<Rightarrow> Some (Inr (items @ others))))"

subsection \<open>Teams and groups\<close>

definition teamGroupClaims :: "githubConnector \<Rightarrow> team \<Rightarrow> string list" where
  "teamGroupClaims c t =
     (if teamNameField c = ''both'' then [team_Name t, team_Slug t]
      else if teamNameField c = ''slug'' then [team_Slug t]
      else [team_Name t])"

definition formatTeamName :: "string \<Rightarrow> string \<Rightarrow> string" where
  "formatTeamName orgName teamName = orgName @ '':'' @ teamName"

text \<open>The inner loop of \<open>teamsForOrg\<close> over the teams of one page.\<close>

fun appendOrgTeams :: "githubConnector \<Rightarrow> string \<Rightarrow> team list \<Rightarrow> string list \<Rightarrow> string list" where
  "appendOrgTeams c orgName [] groups = groups"
| "appendOrgTeams c orgName (t # ts) groups =
     appendOrgTeams c orgName ts
       (if org_Login (team_Org t) = orgName then groups @ teamGroupClaims c t else groups)"

fun teamsForOrgLoop ::
  "nat \<Rightarrow> githubConnector \<Rightarrow> world \<Rightarrow> client \<Rightarrow> string \<Rightarrow> string \<Rightarrow> string list
     \<Rightarrow> (error + string list) option" where
  "teamsForOrgLoop 0 c w cl orgName url groups = None"
| "teamsForOrgLoop (Suc n) c w cl orgName url groups =
     (case get w (decodeTeams w) cl url of
        Inl err \<Rightarrow> Some (Inl (GetTeams err))
      | Inr (teams, next) \<Rightarrow>
          if next = [] then Some (Inr (appendOrgTeams c orgName teams groups))
          else teamsForOrgLoop n c w cl orgName next (appendOrgTeams c orgName teams groups))"

definition teamsForOrg ::
  "nat \<Rightarrow> githubConnector \<Rightarrow> world \<Rightarrow> client \<Rightarrow> string \<Rightarrow> (error + string list) option" where
  "teamsForOrg n c w cl orgName = teamsForOrgLoop n c w cl orgName (apiURL c @ ''/user/teams'') []"

text \<open>\<open>userInOrg\<close>: 204 is membership, 302 and 404 are logged and mean no membership,
  any other status is an error. The source returns the comparison with 204 beside the
  error; its only caller drops it when there is an error.\<close>

definition userInOrg :: "githubConnector \<Rightarrow> world \<Rightarrow> client \<Rightarrow> string \<Rightarrow> string \<Rightarrow> error + bool" where
  "userInOrg c w cl userName orgName =
     (let url = apiURL c @ ''/orgs/'' @ orgName @ ''/members/'' @ userName in
      case newRequest w url of
        Some m \<Rightarrow> Inl (NewReq (External m))
      | None \<Rightarrow>
          (case roundTrip w cl url of
             Inl m \<Rightarrow> Inl (GetTeams (External m))
           | Inr resp \<Rightarrow>
               if StatusCode resp = 204 then Inr True
               else if StatusCode resp = 302 \<or> StatusCode resp = 404 then Inr False
               else Inl (UnexpectedStatus (Status resp))))"

text \<open>Modelled from the spec: \<open>groups_pkg.Filter\<close>, of the package \<open>pkg/groups\<close>, is
  not among the sources; the specification has it "keep only teams whose name appears in
  the allow-list".\<close>

definition Filter :: "string list \<Rightarrow> string list \<Rightarrow> string list" where
  "Filter given required = filter (\<lambda>g. g \<in> set required) given"

text \<open>The loop of \<open>groupsForOrgs\<close> over the configured orgs; the state is the groups
  and the flag \<open>inOrgNoTeams\<close>.\<close>

fun groupsForOrgsLoop ::
  "nat \<Rightarrow> githubConnector \<Rightarrow> world \<Rightarrow> client \<Rightarrow> string \<Rightarrow> Org list \<Rightarrow> string list \<Rightarrow> bool
     \<Rightarrow> (error + string list \<times> bool) option" where
  "groupsForOrgsLoop n c w cl userName [] groups inOrgNoTeams = Some (Inr (groups, inOrgNoTeams))"
| "groupsForOrgsLoop n c w cl userName (og # rest) groups inOrgNoTeams =
     (case userInOrg c w cl userName (Org_Name og) of
        Inl err \<Rightarrow> Some (Inl err)
      | Inr inOrg \<Rightarrow>
          if \<not> inOrg then groupsForOrgsLoop n c w cl userName rest groups inOrgNoTeams
          else
            (case teamsForOrg n c w cl (Org_Name og) of
               None \<Rightarrow> None
             | Some (Inl err) \<Rightarrow> Some (Inl err)
             | Some (Inr teams) \<Rightarrow>
                 let inOrgNoTeams' = (if Org_Teams og = [] then True else inOrgNoTeams);
                     teams' = (if Org_Teams og = [] then teams else Filter teams (Org_Teams og))
                 in groupsForOrgsLoop n c w cl userName rest
                      (groups @ map (formatTeamName (Org_Name og)) teams') inOrgNoTeams'))"

definition groupsForOrgs ::
  "nat \<Rightarrow> githubConnector \<Rightarrow> world \<Rightarrow> client \<Rightarrow> string \<Rightarrow> (error + string list) option" where
  "groupsForOrgs n c w cl userName =
     (case groupsForOrgsLoop n c w cl userName (orgs c) [] False of
        None \<Rightarrow> None
      | Some (Inl err) \<Rightarrow> Some (Inl err)
      | Some (Inr (groups, inOrgNoTeams)) \<Rightarrow>
          if inOrgNoTeams \<or> groups \<noteq> [] then Some (Inr groups)
          else Some (Inl (NotInRequiredOrgs userName)))"

text \<open>\<open>userOrgs\<close> and \<open>userOrgTeams\<close>, the two crawls of the load-all mode; the Go map
  from an org to its teams is a map to \<open>option\<close>, and appending to a missing key starts
  from the empty list.\<close>

fun userOrgsLoop ::
  "nat \<Rightarrow> githubConnector \<Rightarrow> world \<Rightarrow> client \<Rightarrow> string \<Rightarrow> string list \<Rightarrow> (error + string list) option" where
  "userOrgsLoop 0 c w cl url groups = None"
| "userOrgsLoop (Suc n) c w cl url groups =
     (case get w (decodeOrgs w) cl url of
        Inl err \<Rightarrow> Some (Inl (GetOrgs err))
      | Inr (os, next) \<Rightarrow>
          if next = [] then Some (Inr (groups @ map org_Login os))
          else userOrgsLoop n c w cl next (groups @ map org_Login os))"

definition userOrgs :: "nat \<Rightarrow> githubConnector \<Rightarrow> world \<Rightarrow> client \<Rightarrow> (error + string list) option" where
  "userOrgs n c w cl = userOrgsLoop n c w cl (apiURL c @ ''/user/orgs'') []"

fun addTeamClaims ::
  "githubConnector \<Rightarrow> team list \<Rightarrow> (string \<rightharpoonup> string list) \<Rightarrow> (string \<rightharpoonup> string list)" where
  "addTeamClaims c [] groups = groups"
| "addTeamClaims c (t # ts) groups =
     addTeamClaims c ts
       (groups(org_Login (team_Org t) \<mapsto>
          (case groups (org_Login (team_Org t)) of None \<Rightarrow> [] | Some g \<Rightarrow> g) @ teamGroupClaims c t))"

fun userOrgTeamsLoop ::
  "nat \<Rightarrow> githubConnector \<Rightarrow> world \<Rightarrow> client \<Rightarrow> string \<Rightarrow> (string \<rightharpoonup> string list)
     \<Rightarrow> (error + (string \<rightharpoonup> string list)) option" where
  "userOrgTeamsLoop 0 c w cl url groups = None"
| "userOrgTeamsLoop (Suc n) c w cl url groups =
     (case get w (decodeTeams w) cl url of
        Inl err \<Rightarrow> Some (Inl (GetTeams err))
      | Inr (teams, next) \<Rightarrow>
          if next = [] then Some (Inr (addTeamClaims c teams groups))
          else userOrgTeamsLoop n c w cl next (addTeamClaims c teams groups))"

definition userOrgTeams ::
  "nat \<Rightarrow> githubConnector \<Rightarrow> world \<Rightarrow> client \<Rightarrow> (error + (string \<rightharpoonup> string list)) option" where
  "userOrgTeams n c w cl = userOrgTeamsLoop n c w cl (apiURL c @ ''/user/teams'') Map.empty"

fun joinOrgTeams :: "(string \<rightharpoonup> string list) \<Rightarrow> string list \<Rightarrow> string list \<Rightarrow> string list" where
  "joinOrgTeams orgTeams [] groups = groups"
| "joinOrgTeams orgTeams (og # ogs) groups =
     joinOrgTeams orgTeams ogs
       (case orgTeams og of
          Some teams \<Rightarrow> (groups @ [og]) @ map (formatTeamName og) teams
        | None \<Rightarrow> groups @ [og])"

definition userGroups :: "nat \<Rightarrow> githubConnector \<Rightarrow> world \<Rightarrow> client \<Rightarrow> (error + string list) option" where
  "userGroups n c w cl =
     (case userOrgs n c w cl of
        None \<Rightarrow> None
      | Some (Inl err) \<Rightarrow> Some (Inl err)
      | Some (Inr os) \<Rightarrow>
          (case userOrgTeams n c w cl of
             None \<Rightarrow> None
           | Some (Inl err) \<Rightarrow> Some (Inl err)
           | Some (Inr orgTeams) \<Rightarrow> Some (Inr (joinOrgTeams orgTeams os []))))"

text \<open>\<open>getGroups\<close>; the \<open>nil\<close> slice of the last case is the empty list.\<close>

definition getGroups ::
  "nat \<Rightarrow> githubConnector \<Rightarrow> world \<Rightarrow> client \<Rightarrow> bool \<Rightarrow> string \<Rightarrow> (error + string list) option" where
  "getGroups n c w cl groupScope userLogin =
     (if orgs c \<noteq> [] then groupsForOrgs n c w cl userLogin
      else if org c \<noteq> [] then teamsForOrg n c w cl (org c)
      else if groupScope \<and> loadAllGroups c then userGroups n c w cl
      else Some (Inr []))"

definition groupsRequired :: "githubConnector \<Rightarrow> bool \<Rightarrow> bool" where
  "groupsRequired c groupScope = (orgs c \<noteq> [] \<or> org c \<noteq> [] \<or> groupScope)"

subsection \<open>Construction\<close>

record Config =
  Config_ClientID :: string
  Config_ClientSecret :: string
  Config_RedirectURI :: string
  Config_Org :: string
  Config_Orgs :: "Org list"
  Config_HostName :: string
  Config_RootCA :: string
  Config_TeamNameField :: string
  Config_LoadAllGroups :: bool
  Config_UseLoginAsID :: bool
  Config_PreferredEmailDomain :: string
  Config_NoreplyPrivateEmail :: bool

text \<open>\<open>Open\<close>, with its checks in the order of the source; the logger is left out.\<close>

definition Open :: "world \<Rightarrow> Config \<Rightarrow> error + githubConnector" where
  "Open w cfg =
     (if Config_Org cfg \<noteq> [] \<and> Config_Orgs cfg \<noteq> [] then Inl BothOrgAndOrgs
      else if Config_HostName cfg \<noteq> [] \<and> CHR ''/'' \<in> set (Config_HostName cfg)
        then Inl InvalidHostname
      else if Config_RootCA cfg \<noteq> [] \<and> Config_HostName cfg = [] then Inl RootCARequiresHost
      else
        case (if Config_RootCA cfg \<noteq> [] then newHTTPClient w (Config_RootCA cfg) else None) of
          Some m \<Rightarrow> Inl (HTTPClientFailed (External m))
        | None \<Rightarrow>
            if Config_TeamNameField cfg \<noteq> ''name'' \<and> Config_TeamNameField cfg \<noteq> ''slug''
               \<and> Config_TeamNameField cfg \<noteq> ''both'' \<and> Config_TeamNameField cfg \<noteq> []
              then Inl (UnsupportedTeamNameField (Config_TeamNameField cfg))
            else if Config_PreferredEmailDomain cfg \<noteq> []
                    \<and> last (Config_PreferredEmailDomain cfg) = CHR ''*''
              then Inl InvalidPreferredEmailDomain
            else
              Inr \<lparr> redirectURI = Config_RedirectURI cfg,
                    org = Config_Org cfg,
                    orgs = Config_Orgs cfg,
                    clientID = Config_ClientID cfg,
                    clientSecret = Config_ClientSecret cfg,
                    apiURL = (if Config_HostName cfg \<noteq> []
                              then ''https://'' @ Config_HostName cfg @ ''/api/v3''
                              else ''https://api.github.com''),
                    hostName = Config_HostName cfg,
                    rootCA = Config_RootCA cfg,
                    httpClient = (Config_RootCA cfg \<noteq> []),
                    teamNameField = Config_TeamNameField cfg,
                    loadAllGroups = Config_LoadAllGroups cfg,
                    useLoginAsID = Config_UseLoginAsID cfg,
                    preferredEmailDomain = Config_PreferredEmailDomain cfg,
                    noreplyPrivateEmail = Config_NoreplyPrivateEmail cfg \<rparr>)"

subsection \<open>Login and refresh\<close>

text \<open>The scopes of a request, the query of the callback request, and the identity the
  connector returns (\<open>connector.Scopes\<close>, the URL query, \<open>connector.Identity\<close>).\<close>

record scopes =
  OfflineAccess :: bool
  GroupsScope :: bool

record callbackQuery =
  query_error :: string
  query_error_description :: string
  query_code :: string

record identity =
  UserID :: string
  Username :: string
  PreferredUsername :: string
  identity_Email :: string
  EmailVerified :: bool
  Groups :: "string list"
  ConnectorData :: string

definition scopeEmail :: string where
  "scopeEmail = ''user:email''"

definition scopeOrgs :: string where
  "scopeOrgs = ''read:org''"

definition oauth2Config :: "githubConnector \<Rightarrow> scopes \<Rightarrow> oauth2Config" where
  "oauth2Config c s =
     \<lparr> ClientID = clientID c,
       ClientSecret = clientSecret c,
       AuthURL = (if hostName c \<noteq> [] then ''https://'' @ hostName c @ ''/login/oauth/authorize''
                  else ''https://github.com/login/oauth/authorize''),
       TokenURL = (if hostName c \<noteq> [] then ''https://'' @ hostName c @ ''/login/oauth/access_token''
                   else ''https://github.com/login/oauth/access_token''),
       Scopes = (if groupsRequired c (GroupsScope s) then [scopeEmail, scopeOrgs] else [scopeEmail]),
       RedirectURL = redirectURI c \<rparr>"

text \<open>The groups of an identity, when the configuration or the scopes ask for them.\<close>

definition withGroups ::
  "nat \<Rightarrow> githubConnector \<Rightarrow> world \<Rightarrow> client \<Rightarrow> scopes \<Rightarrow> string \<Rightarrow> identity
     \<Rightarrow> (error + identity) option" where
  "withGroups n c w cl s userLogin ident =
     (if groupsRequired c (GroupsScope s) then
        (case getGroups n c w cl (GroupsScope s) userLogin of
           None \<Rightarrow> None
         | Some (Inl err) \<Rightarrow> Some (Inl err)
         | Some (Inr groups) \<Rightarrow> Some (Inr (ident\<lparr>Groups := groups\<rparr>)))
      else Some (Inr ident))"

text \<open>\<open>HandleCallback\<close>. The identity the source returns beside an error is dropped.\<close>

definition HandleCallback ::
  "nat \<Rightarrow> githubConnector \<Rightarrow> world \<Rightarrow> scopes \<Rightarrow> callbackQuery \<Rightarrow> (error + identity) option" where
  "HandleCallback n c w s q =
     (if query_error q \<noteq> [] then Some (Inl (OAuth2Error (query_error q) (query_error_description q)))
      else
        case exchange w (oauth2Config c s) (httpClient c) (query_code q) of
          Inl m \<Rightarrow> Some (Inl (GetToken (External m)))
        | Inr token \<Rightarrow>
            let cl = \<lparr>clientToken = token, customTransport = httpClient c\<rparr> in
            (case user n c w cl of
               None \<Rightarrow> None
             | Some (Inl err) \<Rightarrow> Some (Inl (GetUser err))
             | Some (Inr u) \<Rightarrow>
                 let username = (if user_Name u = [] then user_Login u else user_Name u);
                     ident = \<lparr> UserID = (if useLoginAsID c then user_Login u else itoa (user_ID u)),
                               Username = username,
                               PreferredUsername = user_Login u,
                               identity_Email = user_Email u,
                               EmailVerified = True,
                               Groups = [],
                               ConnectorData = [] \<rparr>
                 in (case withGroups n c w cl s (user_Login u) ident of
                       None \<Rightarrow> None
                     | Some (Inl err) \<Rightarrow> Some (Inl err)
                     | Some (Inr ident') \<Rightarrow>
                         if OfflineAccess s then
                           (case marshalData w \<lparr>AccessToken = token\<rparr> of
                              Inl m \<Rightarrow> Some (Inl (MarshalData (External m)))
                            | Inr connData \<Rightarrow> Some (Inr (ident'\<lparr>ConnectorData := connData\<rparr>)))
                         else Some (Inr ident'))))"

text \<open>\<open>Refresh\<close>. Its client is made from the caller's context, to which the
  connector adds nothing.\<close>

definition Refresh ::
  "nat \<Rightarrow> githubConnector \<Rightarrow> world \<Rightarrow> scopes \<Rightarrow> identity \<Rightarrow> (error + identity) option" where
  "Refresh n c w s ident =
     (if ConnectorData ident = [] then Some (Inl NoAccessToken)
      else
        case unmarshalData w (ConnectorData ident) of
          Inl m \<Rightarrow> Some (Inl (UnmarshalToken (External m)))
        | Inr data \<Rightarrow>
            let cl = \<lparr>clientToken = AccessToken data, customTransport = False\<rparr> in
            (case user n c w cl of
               None \<Rightarrow> None
             | Some (Inl err) \<Rightarrow> Some (Inl (GetUser err))
             | Some (Inr u) \<Rightarrow>
                 let username = (if user_Name u = [] then user_Login u else user_Name u)
                 in withGroups n c w cl s (user_Login u)
                      (ident\<lparr>Username := username, PreferredUsername := user_Login u,
                             identity_Email := user_Email u\<rparr>)))"

subsection \<open>The choice of the email, as the specification words it\<close>

text \<open>An email as the crawl treats it: on a configured host every email counts as
  verified.\<close>

definition effective :: "githubConnector \<Rightarrow> userEmail \<Rightarrow> userEmail" where
  "effective c e = (if hostName c \<noteq> [] then e\<lparr>Verified := True\<rparr> else e)"

definition domainPart :: "userEmail \<Rightarrow> string" where
  "domainPart e = fst (snd (Cut CHR ''@'' (Email e)))"

text \<open>The verified emails of the preferred domain, and the emails that are verified and
  primary, in the order the crawl meets them.\<close>

definition preferredOf :: "githubConnector \<Rightarrow> userEmail list \<Rightarrow> userEmail list" where
  "preferredOf c es =
     (if preferredEmailDomain c = [] then []
      else filter (\<lambda>e. Verified e \<and> isPreferredEmailDomain c (domainPart e)) (map (effective c) es))"

definition primariesOf :: "githubConnector \<Rightarrow> userEmail list \<Rightarrow> userEmail list" where
  "primariesOf c es = filter (\<lambda>e. Verified e \<and> Primary e) (map (effective c) es)"

subsection \<open>The groups, as the specification words them\<close>

text \<open>The group strings of the user's teams in one org: the projection of every team
  whose org is the given one, in the order of the crawl.\<close>

definition orgClaims :: "githubConnector \<Rightarrow> string \<Rightarrow> team list \<Rightarrow> string list" where
  "orgClaims c orgName ts =
     concat (map (teamGroupClaims c) (filter (\<lambda>t. org_Login (team_Org t) = orgName) ts))"

text \<open>What one configured org adds to the groups in org-list mode, given the user's
  teams: nothing when the user is not a confirmed member; else the strings of the teams
  in that org, those of the allow-list only when there is one, each behind \<open>org:\<close>.\<close>

definition orgGroups ::
  "githubConnector \<Rightarrow> world \<Rightarrow> client \<Rightarrow> string \<Rightarrow> team list \<Rightarrow> Org \<Rightarrow> string list" where
  "orgGroups c w cl userName ts og =
     (if userInOrg c w cl userName (Org_Name og) = Inr True then
        map (formatTeamName (Org_Name og))
          (if Org_Teams og = [] then orgClaims c (Org_Name og) ts
           else Filter (orgClaims c (Org_Name og) ts) (Org_Teams og))
      else [])"

text \<open>Whether a configured org authorizes the user: confirmed membership, and either no
  allow-list or a team string of the user in the allow-list.\<close>

definition orgAuthorizes ::
  "githubConnector \<Rightarrow> world \<Rightarrow> client \<Rightarrow> string \<Rightarrow> team list \<Rightarrow> Org \<Rightarrow> bool" where
  "orgAuthorizes c w cl userName ts og =
     (userInOrg c w cl userName (Org_Name og) = Inr True \<and>
      (Org_Teams og = [] \<or> (\<exists>g \<in> set (orgClaims c (Org_Name og) ts). g \<in> set (Org_Teams og))))"

subsection \<open>Examples\<close>

definition publicConnector :: githubConnector where
  "publicConnector =
     \<lparr> redirectURI = ''https://dex.example.com/callback'', org = [], orgs = [],
       clientID = ''id'', clientSecret = ''secret'', apiURL = ''https://api.github.com'',
       hostName = [], rootCA = [], httpClient = False, teamNameField = [], loadAllGroups = False,
       useLoginAsID = False, preferredEmailDomain = [], noreplyPrivateEmail = False \<rparr>"

text \<open>A world given by tables: the response to each URL, and the decoded value of
  each body; the bodies of the examples are names, not JSON text.\<close>

definition ok200 :: "string \<Rightarrow> (string \<times> string) list \<Rightarrow> response" where
  "ok200 body links = \<lparr>StatusCode = 200, Status = ''200 OK'', Body = Inr body, Link = linkHeader links\<rparr>"

definition status :: "int \<Rightarrow> string \<Rightarrow> response" where
  "status code line = \<lparr>StatusCode = code, Status = line, Body = Inr [], Link = []\<rparr>"

definition decodeTable :: "(string \<times> 'a) list \<Rightarrow> string \<Rightarrow> string + 'a" where
  "decodeTable table body =
     (case map_of table body of None \<Rightarrow> Inl ''invalid character'' | Some v \<Rightarrow> Inr v)"

definition tableWorld ::
  "(string \<times> response) list \<Rightarrow> (string \<times> user) list \<Rightarrow> (string \<times> userEmail list) list
     \<Rightarrow> (string \<times> org list) list \<Rightarrow> (string \<times> team list) list \<Rightarrow> world" where
  "tableWorld responses users emails orgLists teamLists =
     \<lparr> newRequest = (\<lambda>url. None),
       roundTrip = (\<lambda>cl url. case map_of responses url of
                               None \<Rightarrow> Inl ''connection refused''
                             | Some r \<Rightarrow> Inr r),
       decodeUser = decodeTable users,
       decodeEmails = decodeTable emails,
       decodeOrgs = decodeTable orgLists,
       decodeTeams = decodeTable teamLists,
       exchange = (\<lambda>cfg custom code. if code = ''code'' then Inr ''token'' else Inl ''bad_verification_code''),
       unmarshalData = (\<lambda>d. Inr \<lparr>AccessToken = d\<rparr>),
       marshalData = (\<lambda>d. Inr (AccessToken d)),
       newHTTPClient = (\<lambda>rootCA. None) \<rparr>"

definition tokenClient :: client where
  "tokenClient = \<lparr>clientToken = ''token'', customTransport = False\<rparr>"

definition octocat :: user where
  "octocat = \<lparr>user_Name = ''The Octocat'', user_Login = ''octocat'', user_ID = 583231,
              user_Email = ''octocat@github.com''\<rparr>"

text \<open>A world whose teams endpoint answers 204.\<close>

definition world204 :: world where
  "world204 = tableWorld [(''https://api.github.com/user/teams'', status 204 ''204 No Content'')]
                [] [] [] [([], [])]"

text \<open>A configuration whose host is \<open>github.com\<close> and that asks for the
  synthesized email, and the connector that \<open>Open\<close> builds from it.\<close>

definition hostedConfig :: Config where
  "hostedConfig =
     \<lparr> Config_ClientID = ''id'', Config_ClientSecret = ''secret'',
       Config_RedirectURI = ''https://dex.example.com/callback'', Config_Org = [],
       Config_Orgs = [], Config_HostName = ''github.com'', Config_RootCA = [],
       Config_TeamNameField = [], Config_LoadAllGroups = False, Config_UseLoginAsID = False,
       Config_PreferredEmailDomain = [], Config_NoreplyPrivateEmail = True \<rparr>"

definition hostedConnector :: githubConnector where
  "hostedConnector = publicConnector\<lparr>apiURL := ''https://github.com/api/v3'',
       hostName := ''github.com'', noreplyPrivateEmail := True\<rparr>"

definition worldHosted :: world where
  "worldHosted = tableWorld [(''https://github.com/api/v3/user'', ok200 ''profile'' [])]
       [(''profile'', octocat)] [] [] []"

text \<open>The same configuration for the host \<open>github.example.com\<close>.\<close>

definition enterpriseConnector :: githubConnector where
  "enterpriseConnector = publicConnector\<lparr>apiURL := ''https://github.example.com/api/v3'',
       hostName := ''github.example.com'', noreplyPrivateEmail := True\<rparr>"

definition worldEnterprise :: world where
  "worldEnterprise = tableWorld [(''https://github.example.com/api/v3/user'', ok200 ''profile'' [])]
       [(''profile'', octocat)] [] [] []"

text \<open>A user without a public email whose private emails come in two pages.\<close>

definition mkEmail :: "string \<Rightarrow> bool \<Rightarrow> bool \<Rightarrow> userEmail" where
  "mkEmail a v p = \<lparr>Email = a, Verified = v, Primary = p, Visibility = ''private''\<rparr>"

definition emailPages :: "(string \<times> response) list" where
  "emailPages =
     [(''https://api.github.com/user'', ok200 ''profile'' []),
      (''https://api.github.com/user/emails'',
         ok200 ''emails 1'' [(''https://api.github.com/user/emails?page=2'', ''next''),
                             (''https://api.github.com/user/emails?page=2'', ''last'')]),
      (''https://api.github.com/user/emails?page=2'',
         ok200 ''emails 2'' [(''https://api.github.com/user/emails'', ''first''),
                             (''https://api.github.com/user/emails?page=2'', ''last'')])]"

definition worldTwoPrimaries :: world where
  "worldTwoPrimaries = tableWorld emailPages [(''profile'', octocat\<lparr>user_Email := []\<rparr>)]
       [(''emails 1'', [mkEmail ''one@a.org'' True True]),
        (''emails 2'', [mkEmail ''two@a.org'' True True])] [] []"

definition worldPreferred :: world where
  "worldPreferred = tableWorld emailPages [(''profile'', octocat\<lparr>user_Email := []\<rparr>)]
       [(''emails 1'', [mkEmail ''p@a.org'' True True, mkEmail ''u@m.b.org'' False False]),
        (''emails 2'', [mkEmail ''v@m.b.org'' True False, mkEmail ''w@m.b.org'' True False])] [] []"

text \<open>The orgs of the specification's example: \<open>A\<close> with the allow-list \<open>[x]\<close>,
  \<open>B\<close> and \<open>C\<close> without one; the user is a member of \<open>A\<close> and \<open>B\<close> and not of
  \<open>C\<close>. The teams of the user are a parameter.\<close>

definition orgConnector :: githubConnector where
  "orgConnector = publicConnector\<lparr>orgs :=
      [\<lparr>Org_Name = ''A'', Org_Teams = [''x'']\<rparr>,
       \<lparr>Org_Name = ''B'', Org_Teams = []\<rparr>,
       \<lparr>Org_Name = ''C'', Org_Teams = []\<rparr>]\<rparr>"

definition mkTeam :: "string \<Rightarrow> string \<Rightarrow> string \<Rightarrow> team" where
  "mkTeam orgName name slug = \<lparr>team_Name = name, team_Org = \<lparr>org_Login = orgName\<rparr>, team_Slug = slug\<rparr>"

definition worldOrgs :: "team list \<Rightarrow> world" where
  "worldOrgs teams =
     tableWorld
       [(''https://api.github.com/user'', ok200 ''profile'' []),
        (''https://api.github.com/orgs/A/members/octocat'', status 204 ''204 No Content''),
        (''https://api.github.com/orgs/B/members/octocat'', status 204 ''204 No Content''),
        (''https://api.github.com/orgs/C/members/octocat'', status 404 ''404 Not Found''),
        (''https://api.github.com/user/orgs'', ok200 ''orgs'' []),
        (''https://api.github.com/user/teams'', ok200 ''teams'' [])]
       [(''profile'', octocat)] []
       [(''orgs'', [\<lparr>org_Login = ''A''\<rparr>, \<lparr>org_Login = ''B''\<rparr>])]
       [(''teams'', teams)]"

text \<open>A connector of the legacy single-org mode that projects both the name and the
  slug; an identity as stored by an earlier login; the scopes and the query of a login.\<close>

definition legacyConnector :: githubConnector where
  "legacyConnector = publicConnector\<lparr>org := ''A'', teamNameField := ''both''\<rparr>"

definition oldIdentity :: identity where
  "oldIdentity = \<lparr>UserID = ''583231'', Username = ''Old Name'', PreferredUsername = ''old-login'',
       identity_Email = ''old@github.com'', EmailVerified = False, Groups = [''A:old''],
       ConnectorData = ''token''\<rparr>"

definition allScopes :: scopes where
  "allScopes = \<lparr>OfflineAccess = True, GroupsScope = True\<rparr>"

definition codeQuery :: callbackQuery where
  "codeQuery = \<lparr>query_error = [], query_error_description = [], query_code = ''code''\<rparr>"

section \<open>Properties\<close>

lemma labelsMatch_iff:
  "i + length vs = length ds \<Longrightarrow>
   labelsMatch i vs ds = list_all2 (\<lambda>g d. g = d \<or> g = ''*'') vs (drop i ds)"
proof (induction vs arbitrary: i)
  case Nil
  then show ?case by simp
next
  case (Cons v vs)
  then have lt: "i < length ds" by simp
  then have d: "drop i ds = ds ! i # drop (Suc i) ds"
    by (simp add: Cons_nth_drop_Suc)
  from Cons.prems have "Suc i + length vs = length ds" by simp
  then have "labelsMatch (Suc i) vs ds
      = list_all2 (\<lambda>g d. g = d \<or> g = ''*'') vs (drop (Suc i) ds)"
    by (rule Cons.IH)
  then show ?case using d by auto
qed

text \<open>
  Claim C8. The comparator of the preferred email domain is true exactly when the
  candidate equals the configured glob literally, or both split at the dots into equally
  many labels and each configured label equals the candidate's label or is \<open>*\<close>; the glob
  \<open>*.example.com\<close> matches \<open>mail.example.com\<close> and neither \<open>example.com\<close> nor
  \<open>mail.example.org\<close>.
\<close>

theorem isPreferredEmailDomain_spec:
  "isPreferredEmailDomain c domain = domainGlobSpec (preferredEmailDomain c) domain
   \<and> isPreferredEmailDomain (c\<lparr>preferredEmailDomain := ''*.example.com''\<rparr>) ''mail.example.com''
   \<and> \<not> isPreferredEmailDomain (c\<lparr>preferredEmailDomain := ''*.example.com''\<rparr>) ''example.com''
   \<and> \<not> isPreferredEmailDomain (c\<lparr>preferredEmailDomain := ''*.example.com''\<rparr>) ''mail.example.org''"
proof -
  have gen: "isPreferredEmailDomain c' d = domainGlobSpec (preferredEmailDomain c') d" for c' d
  proof (cases "d = preferredEmailDomain c'")
    case True
    then show ?thesis by (simp add: isPreferredEmailDomain_def domainGlobSpec_def)
  next
    case False
    show ?thesis
    proof (cases "length (Split CHR ''.'' (preferredEmailDomain c')) = length (Split CHR ''.'' d)")
      case True
      then have "labelsMatch 0 (Split CHR ''.'' (preferredEmailDomain c')) (Split CHR ''.'' d)
          = list_all2 (\<lambda>g d. g = d \<or> g = ''*'') (Split CHR ''.'' (preferredEmailDomain c'))
              (drop 0 (Split CHR ''.'' d))"
        by (intro labelsMatch_iff) simp
      with False True show ?thesis
        by (simp add: isPreferredEmailDomain_def domainGlobSpec_def Let_def)
    next
      case F: False
      with False show ?thesis
        by (simp add: isPreferredEmailDomain_def domainGlobSpec_def Let_def)
    qed
  qed
  have e1: "domainGlobSpec ''*.example.com'' ''mail.example.com''"
    by (simp add: domainGlobSpec_def)
  have e2: "\<not> domainGlobSpec ''*.example.com'' ''example.com''"
    by (simp add: domainGlobSpec_def)
  have e3: "\<not> domainGlobSpec ''*.example.com'' ''mail.example.org''"
    by (simp add: domainGlobSpec_def)
  show ?thesis using gen e1 e2 e3 by simp
qed

theorem isPreferredEmailDomain_spec_witness:
  "isPreferredEmailDomain (publicConnector\<lparr>preferredEmailDomain := ''*.github.com''\<rparr>) ''api.github.com''
   \<and> domainGlobSpec ''*.github.com'' ''api.github.com''
   \<and> \<not> isPreferredEmailDomain (publicConnector\<lparr>preferredEmailDomain := ''*.github.com''\<rparr>) ''github.com''"
proof -
  have a: "domainGlobSpec ''*.github.com'' ''api.github.com''"
    by (simp add: domainGlobSpec_def)
  have b: "\<not> domainGlobSpec ''*.github.com'' ''github.com''"
    by (simp add: domainGlobSpec_def)
  show ?thesis
    using a b
      isPreferredEmailDomain_spec [of "publicConnector\<lparr>preferredEmailDomain := ''*.github.com''\<rparr>" "''api.github.com''"]
      isPreferredEmailDomain_spec [of "publicConnector\<lparr>preferredEmailDomain := ''*.github.com''\<rparr>" "''github.com''"]
    by simp
qed

subsection \<open>Pagination\<close>

lemma findSubmatch_skip:
  "CHR ''<'' \<notin> set pre \<Longrightarrow> findSubmatch rel (pre @ s) = findSubmatch rel s"
  by (induction pre) (auto simp: matchAt_def)

lemma relSuffix_prefix_iff:
  assumes "CHR 0x22 \<notin> set r" "CHR 0x22 \<notin> set rel"
  shows "take (length (relSuffix rel)) (relSuffix r @ t) = relSuffix rel \<longleftrightarrow> r = rel"
proof -
  have "take (length (rel @ [CHR 0x22])) (r @ [CHR 0x22] @ t) = rel @ [CHR 0x22] \<longleftrightarrow> r = rel"
    using assms
  proof (induction r arbitrary: rel)
    case Nil
    then show ?case by (cases rel) auto
  next
    case (Cons a r)
    then show ?case by (cases rel) auto
  qed
  then show ?thesis by (simp add: relSuffix_def)
qed

lemma matchAt_entry:
  assumes "wellFormedEntry e" "CHR 0x22 \<notin> set rel"
  shows "matchAt rel (linkEntry e @ t) = (if snd e = rel then Some (fst e) else None)"
proof -
  have tw: "takeWhile (\<lambda>x. x \<noteq> CHR ''>'') (fst e @ relSuffix (snd e) @ t) = fst e"
    using assms(1) by (simp add: wellFormedEntry_def relSuffix_def takeWhile_append)
  have dw: "dropWhile (\<lambda>x. x \<noteq> CHR ''>'') (fst e @ relSuffix (snd e) @ t) = relSuffix (snd e) @ t"
    using assms(1) by (simp add: wellFormedEntry_def relSuffix_def dropWhile_append)
  have ne: "fst e \<noteq> []" using assms(1) by (simp add: wellFormedEntry_def)
  have q: "CHR 0x22 \<notin> set (snd e)" using assms(1) by (simp add: wellFormedEntry_def)
  have "matchAt rel (linkEntry e @ t)
      = (if take (length (relSuffix rel)) (relSuffix (snd e) @ t) = relSuffix rel
         then Some (fst e) else None)"
    unfolding matchAt_def linkEntry_def
    by (simp only: append_Cons list.case tw dw Let_def ne append_assoc) simp
  then show ?thesis
    unfolding relSuffix_prefix_iff [OF q assms(2), of t] .
qed

lemma findSubmatch_entry:
  assumes "wellFormedEntry e" "CHR 0x22 \<notin> set rel"
  shows "findSubmatch rel (linkEntry e @ t)
     = (if snd e = rel then Some (fst e) else findSubmatch rel t)"
proof (cases "snd e = rel")
  case True
  have "linkEntry e @ t = CHR ''<'' # (fst e @ relSuffix (snd e) @ t)" by (simp add: linkEntry_def)
  then show ?thesis using matchAt_entry [OF assms, of t] True by simp
next
  case False
  have nolt: "CHR ''<'' \<notin> set (fst e @ relSuffix (snd e))"
    using assms(1) by (auto simp: wellFormedEntry_def relSuffix_def)
  have "findSubmatch rel (linkEntry e @ t) = findSubmatch rel ((fst e @ relSuffix (snd e)) @ t)"
    using matchAt_entry [OF assms, of t] False by (simp add: linkEntry_def)
  also have "\<dots> = findSubmatch rel t" using nolt by (rule findSubmatch_skip)
  finally show ?thesis using False by simp
qed

lemma findSubmatch_linkHeader:
  assumes "list_all wellFormedEntry es" "CHR 0x22 \<notin> set rel"
  shows "findSubmatch rel (linkHeader es) = relURL rel es"
  using assms(1)
proof (induction es rule: linkHeader.induct)
  case 1
  then show ?case by simp
next
  case (2 e)
  then show ?case using findSubmatch_entry [OF _ assms(2), of e "[]"] by simp
next
  case (3 e v va)
  have "findSubmatch rel ('', '' @ linkHeader (v # va)) = findSubmatch rel (linkHeader (v # va))"
    by (rule findSubmatch_skip) simp
  then show ?case using 3 findSubmatch_entry [OF _ assms(2), of e "'', '' @ linkHeader (v # va)"]
    by simp
qed

text \<open>
  Claim C5. \<open>getPagination\<close> returns the empty string when the header has no "last"
  relation; the empty string when the "last" relation is the URL just fetched, whatever
  the "next" relation is; and otherwise the URL of the "next" relation, or the empty
  string when there is none. A relation is present when its pattern matches; on a header
  of well-formed entries the patterns find the URL of the first entry with the relation.
\<close>

theorem getPagination_spec:
  "getPagination url None = []
   \<and> (reLast (Link r) = None \<longrightarrow> getPagination url (Some r) = [])
   \<and> (reLast (Link r) = Some url \<longrightarrow> getPagination url (Some r) = [])
   \<and> (reLast (Link r) = Some l \<and> l \<noteq> url \<longrightarrow>
        getPagination url (Some r) = (case reNext (Link r) of Some n \<Rightarrow> n | None \<Rightarrow> []))
   \<and> (list_all wellFormedEntry es \<and> Link r = linkHeader es \<longrightarrow>
        reLast (Link r) = relURL ''last'' es \<and> reNext (Link r) = relURL ''next'' es)"
proof -
  have g: "list_all wellFormedEntry es \<Longrightarrow> findSubmatch ''last'' (linkHeader es) = relURL ''last'' es
      \<and> findSubmatch ''next'' (linkHeader es) = relURL ''next'' es"
    using findSubmatch_linkHeader [of es "''last''"] findSubmatch_linkHeader [of es "''next''"]
    by simp
  show ?thesis
    using g by (auto simp: getPagination_def reLast_def reNext_def Let_def)
qed

theorem getPagination_spec_witness:
  "getPagination ''https://api.github.com/user/teams?page=2''
      (Some \<lparr>StatusCode = 200, Status = ''200 OK'', Body = Inr [],
             Link = linkHeader [(''https://api.github.com/user/teams?page=3'', ''next''),
                                (''https://api.github.com/user/teams?page=2'', ''last'')]\<rparr>) = []
   \<and> getPagination ''https://api.github.com/user/teams''
      (Some \<lparr>StatusCode = 200, Status = ''200 OK'', Body = Inr [],
             Link = linkHeader [(''https://api.github.com/user/teams?page=3'', ''next''),
                                (''https://api.github.com/user/teams?page=2'', ''last'')]\<rparr>)
       = ''https://api.github.com/user/teams?page=3''
   \<and> getPagination ''https://api.github.com/user/teams''
      (Some \<lparr>StatusCode = 200, Status = ''200 OK'', Body = Inr [],
             Link = linkHeader [(''https://api.github.com/user/teams?page=3'', ''next'')]\<rparr>) = []"
proof -
  let ?es = "[(''https://api.github.com/user/teams?page=3'', ''next''),
              (''https://api.github.com/user/teams?page=2'', ''last'')]"
  let ?r = "\<lparr>StatusCode = 200, Status = ''200 OK'', Body = Inr [], Link = linkHeader ?es\<rparr>"
  let ?es1 = "[(''https://api.github.com/user/teams?page=3'', ''next'')]"
  let ?r1 = "\<lparr>StatusCode = 200, Status = ''200 OK'', Body = Inr [], Link = linkHeader ?es1\<rparr>"
  have wf: "list_all wellFormedEntry ?es" "list_all wellFormedEntry ?es1"
    by (simp_all add: wellFormedEntry_def)
  have a: "getPagination ''https://api.github.com/user/teams?page=2'' (Some ?r) = []"
    using wf getPagination_spec [of "''https://api.github.com/user/teams?page=2''" ?r _ ?es]
    by simp
  have b: "getPagination ''https://api.github.com/user/teams'' (Some ?r)
      = ''https://api.github.com/user/teams?page=3''"
    using wf getPagination_spec [of "''https://api.github.com/user/teams''" ?r
        "''https://api.github.com/user/teams?page=2''" ?es]
    by simp
  have c: "getPagination ''https://api.github.com/user/teams'' (Some ?r1) = []"
    using wf getPagination_spec [of "''https://api.github.com/user/teams''" ?r1 _ ?es1]
    by simp
  show ?thesis using a b c by simp
qed

subsection \<open>The fetch of one page\<close>

text \<open>
  Claim C4, as amended. When the request is sent and answered, \<open>get\<close> returns the error
  that carries the status line and the raw body exactly when the status is not 200 (and
  the body can be read); a 200 response is the only one accepted, and its body is
  decoded, a decoding failure being an error as well.
\<close>

theorem get_status:
  assumes "newRequest w url = None" and "roundTrip w cl url = Inr resp"
  shows "(get w decode cl url = Inl (BadStatus s b)
            \<longleftrightarrow> StatusCode resp \<noteq> 200 \<and> Status resp = s \<and> Body resp = Inr b)
         \<and> (StatusCode resp \<noteq> 200 \<longrightarrow> (\<exists>e. get w decode cl url = Inl e))
         \<and> (StatusCode resp = 200 \<and> Body resp = Inr b \<longrightarrow>
              get w decode cl url =
                (case decode b of
                   Inl m \<Rightarrow> Inl (DecodeFailed (External m))
                 | Inr v \<Rightarrow> Inr (v, getPagination url (Some resp))))"
  using assms by (auto simp: get_def split: sum.splits)

text \<open>The claim as stated fails on a 204 response: \<open>get\<close> rejects it.\<close>

theorem get_rejects_204:
  "roundTrip world204 tokenClient ''https://api.github.com/user/teams''
      = Inr (status 204 ''204 No Content'')
   \<and> StatusCode (status 204 ''204 No Content'') = 204
   \<and> get world204 (decodeTeams world204) tokenClient ''https://api.github.com/user/teams''
      = Inl (BadStatus ''204 No Content'' [])"
  by (simp add: get_def world204_def tableWorld_def status_def)

theorem get_status_witness:
  "get worldHosted (decodeUser worldHosted) tokenClient ''https://github.com/api/v3/user''
      = Inr (octocat, [])
   \<and> get worldHosted (decodeUser worldHosted) tokenClient ''https://github.com/api/v3/user''
      \<noteq> Inl (BadStatus ''200 OK'' ''profile'')"
proof -
  have n: "newRequest worldHosted ''https://github.com/api/v3/user'' = None"
    by (simp add: worldHosted_def tableWorld_def)
  have r: "roundTrip worldHosted tokenClient ''https://github.com/api/v3/user''
      = Inr (ok200 ''profile'' [])"
    by (simp add: worldHosted_def tableWorld_def)
  have d: "decodeUser worldHosted ''profile'' = Inr octocat"
    by (simp add: worldHosted_def tableWorld_def decodeTable_def)
  have p: "getPagination ''https://github.com/api/v3/user'' (Some (ok200 ''profile'' [])) = []"
    by (simp add: getPagination_def ok200_def reLast_def)
  show ?thesis
    using get_status [OF n r, of "decodeUser worldHosted" "''200 OK''" "''profile''"] d p
    by (simp add: ok200_def)
qed

subsection \<open>The profile and its email\<close>

text \<open>
  Claim C2, as amended. With the synthesized address configured and the profile fetched,
  the profile's email is \<open>{id}+{login}@users.noreply.github.com\<close>, for every bound on
  the pages of the private emails and so with none of them fetched, when no host is
  configured or the configured host is \<open>github.com\<close>; for every other configured host
  the email is the public one or what the crawl of the private emails returns.
\<close>

theorem user_noreply:
  assumes "get w (decodeUser w) cl (apiURL c @ ''/user'') = Inr (u, nxt)"
  shows "(noreplyPrivateEmail c \<and> (hostName c = [] \<or> hostName c = ''github.com'') \<longrightarrow>
            user n c w cl = Some (Inr (u\<lparr>user_Email := noreplyEmail u\<rparr>))
            \<and> user 0 c w cl = Some (Inr (u\<lparr>user_Email := noreplyEmail u\<rparr>)))
         \<and> (hostName c \<noteq> [] \<and> hostName c \<noteq> ''github.com'' \<longrightarrow>
              user n c w cl =
                (if user_Email u = [] \<or> preferredEmailDomain c \<noteq> [] then
                   (case userEmail n c w cl of
                      None \<Rightarrow> None
                    | Some (Inl err) \<Rightarrow> Some (Inl err)
                    | Some (Inr email) \<Rightarrow> Some (Inr (u\<lparr>user_Email := email\<rparr>)))
                 else Some (Inr u)))
         \<and> noreplyEmail u = itoa (user_ID u) @ ''+'' @ user_Login u @ ''@users.noreply.github.com''"
  using assms by (simp add: user_def noreplyEmail_def)

lemma get_worldHosted:
  "get worldHosted (decodeUser worldHosted) tokenClient ''https://github.com/api/v3/user''
     = Inr (octocat, [])"
  by (simp add: get_def worldHosted_def tableWorld_def ok200_def decodeTable_def
      getPagination_def reLast_def)

lemma noreplyEmail_octocat: "noreplyEmail octocat = ''583231+octocat@users.noreply.github.com''"
  by (simp add: noreplyEmail_def octocat_def itoa_def digits.simps)

text \<open>The claim as stated fails for the configured host \<open>github.com\<close>: the shortcut
  is applied, with no page of the private emails fetched.\<close>

theorem user_noreply_configured_host:
  "Open worldHosted hostedConfig = Inr hostedConnector
   \<and> hostName hostedConnector = ''github.com''
   \<and> apiURL hostedConnector = ''https://github.com/api/v3''
   \<and> user 0 hostedConnector worldHosted tokenClient
      = Some (Inr (octocat\<lparr>user_Email := ''583231+octocat@users.noreply.github.com''\<rparr>))"
proof -
  have "Open worldHosted hostedConfig = Inr hostedConnector"
    by (simp add: Open_def hostedConfig_def hostedConnector_def publicConnector_def)
  then show ?thesis
    using get_worldHosted noreplyEmail_octocat
    by (simp add: user_def hostedConnector_def publicConnector_def)
qed

lemma get_worldEnterprise:
  "get worldEnterprise (decodeUser worldEnterprise) tokenClient
      ''https://github.example.com/api/v3/user'' = Inr (octocat, [])"
  by (simp add: get_def worldEnterprise_def tableWorld_def ok200_def decodeTable_def
      getPagination_def reLast_def)

theorem user_noreply_witness:
  "user 0 hostedConnector worldHosted tokenClient
      = Some (Inr (octocat\<lparr>user_Email := ''583231+octocat@users.noreply.github.com''\<rparr>))
   \<and> noreplyPrivateEmail enterpriseConnector
   \<and> user 0 enterpriseConnector worldEnterprise tokenClient = Some (Inr octocat)"
proof -
  have a: "apiURL hostedConnector @ ''/user'' = ''https://github.com/api/v3/user''"
    by (simp add: hostedConnector_def publicConnector_def)
  have a': "apiURL enterpriseConnector @ ''/user'' = ''https://github.example.com/api/v3/user''"
    by (simp add: enterpriseConnector_def publicConnector_def)
  have g: "get worldHosted (decodeUser worldHosted) tokenClient (apiURL hostedConnector @ ''/user'')
      = Inr (octocat, [])"
    unfolding a by (rule get_worldHosted)
  have g': "get worldEnterprise (decodeUser worldEnterprise) tokenClient
      (apiURL enterpriseConnector @ ''/user'') = Inr (octocat, [])"
    unfolding a' by (rule get_worldEnterprise)
  have h: "noreplyPrivateEmail hostedConnector" "hostName hostedConnector = ''github.com''"
    by (simp_all add: hostedConnector_def publicConnector_def)
  have h': "noreplyPrivateEmail enterpriseConnector"
    "hostName enterpriseConnector = ''github.example.com''"
    "preferredEmailDomain enterpriseConnector = []" "user_Email octocat \<noteq> []"
    by (simp_all add: enterpriseConnector_def publicConnector_def octocat_def)
  show ?thesis
    using user_noreply [OF g, of 0] user_noreply [OF g', of 0] h h' noreplyEmail_octocat
    by simp
qed

subsection \<open>The crawl of the private emails\<close>

text \<open>The loop over the emails of all pages: what it leaves in its state when every
  email is well formed, and its error when one is not.\<close>

lemma Cut_ok: "snd (snd (Cut sep s)) = (sep \<in> set s)"
  by (simp add: Cut_def)

lemma scanEmails_spec:
  "(preferredEmailDomain c \<noteq> [] \<longrightarrow> (\<forall>e\<in>set es. CHR ''@'' \<in> set (Email e))) \<Longrightarrow>
   scanEmails c es p q =
     Inr (if primariesOf c es = [] then p else last (primariesOf c es), q @ preferredOf c es)"
proof (induction es arbitrary: p q)
  case Nil
  then show ?case by (simp add: primariesOf_def preferredOf_def)
next
  case (Cons e es)
  have at: "preferredEmailDomain c \<noteq> [] \<Longrightarrow> CHR ''@'' \<in> set (Email (effective c e))"
    using Cons.prems by (simp add: effective_def)
  have IH: "scanEmails c es p' q' =
     Inr (if primariesOf c es = [] then p' else last (primariesOf c es), q' @ preferredOf c es)" for p' q'
    using Cons.IH Cons.prems by simp
  show ?case
  proof (cases "preferredEmailDomain c = []")
    case True
    then show ?thesis
      by (simp add: IH Let_def primariesOf_def preferredOf_def effective_def)
  next
    case False
    obtain b d ok where cu: "Cut CHR ''@'' (Email (effective c e)) = (b, d, ok)"
      by (cases "Cut CHR ''@'' (Email (effective c e))") auto
    have ok: "ok" using at [OF False] Cut_ok [of "CHR ''@''" "Email (effective c e)"] cu by simp
    have d: "d = domainPart (effective c e)" using cu by (simp add: domainPart_def)
    have step: "scanEmails c (e # es) p q =
        scanEmails c es (if Verified (effective c e) \<and> Primary (effective c e) then effective c e else p)
          (if Verified (effective c e) \<and> isPreferredEmailDomain c (domainPart (effective c e))
           then q @ [effective c e] else q)"
      using False cu ok d by (simp add: Let_def effective_def)
    show ?thesis
      unfolding step IH using False
      by (simp add: primariesOf_def preferredOf_def)
  qed
qed

lemma scanEmails_invalid:
  "preferredEmailDomain c \<noteq> [] \<Longrightarrow> \<exists>e\<in>set es. CHR ''@'' \<notin> set (Email e) \<Longrightarrow>
   scanEmails c es p q = Inl InvalidEmailFormat"
proof (induction es arbitrary: p q)
  case Nil
  then show ?case by simp
next
  case (Cons e es)
  obtain b d ok where cu: "Cut CHR ''@'' (Email e) = (b, d, ok)"
    by (cases "Cut CHR ''@'' (Email e)") auto
  have ok: "ok = (CHR ''@'' \<in> set (Email e))" using Cut_ok [of "CHR ''@''" "Email e"] cu by simp
  show ?case
  proof (cases "CHR ''@'' \<in> set (Email e)")
    case True
    then have "\<exists>e\<in>set es. CHR ''@'' \<notin> set (Email e)" using Cons.prems by auto
    then have "scanEmails c es p' q' = Inl InvalidEmailFormat" for p' q'
      using Cons.IH Cons.prems(1) by simp
    then show ?thesis using Cons.prems(1) cu ok True by (simp add: Let_def)
  next
    case False
    then show ?thesis using Cons.prems(1) cu ok by (simp add: Let_def)
  qed
qed

text \<open>The loop over the pages is the loop over the emails of all of them.\<close>

lemma scanEmails_append:
  "scanEmails c (xs @ ys) p q =
     (case scanEmails c xs p q of Inl err \<Rightarrow> Inl err | Inr (p', q') \<Rightarrow> scanEmails c ys p' q')"
  by (induction xs arbitrary: p q) (auto simp: Let_def split: prod.splits)

lemma userEmailLoop_crawl:
  "crawl n w (decodeEmails w) cl url = Some (Inr es) \<Longrightarrow>
   userEmailLoop n c w cl url p q =
     Some (case scanEmails c es p q of
             Inl err \<Rightarrow> Inl err
           | Inr (p', q') \<Rightarrow> chooseEmail p' q')"
proof (induction n arbitrary: url es p q)
  case 0
  then show ?case by simp
next
  case (Suc n)
  from Suc.prems obtain items nxt where g: "get w (decodeEmails w) cl url = Inr (items, nxt)"
    by (auto split: sum.splits)
  show ?case
  proof (cases "nxt = []")
    case True
    with Suc.prems g have "es = items" by simp
    with g True show ?thesis by (simp split: sum.splits prod.splits)
  next
    case False
    with Suc.prems g obtain others where
      r: "crawl n w (decodeEmails w) cl nxt = Some (Inr others)" and es: "es = items @ others"
      by (auto split: option.splits sum.splits)
    have IH: "userEmailLoop n c w cl nxt p' q' =
       Some (case scanEmails c others p' q' of Inl err \<Rightarrow> Inl err | Inr (p'', q'') \<Rightarrow> chooseEmail p'' q'')" for p' q'
      using Suc.IH [OF r] .
    show ?thesis
      using g False by (simp add: es scanEmails_append IH split: sum.splits prod.splits)
  qed
qed

text \<open>A crawl that ends within a bound ends the same way within any larger one, and a
  page whose "next" link is the page itself never ends within any.\<close>

lemma crawl_mono:
  "crawl n w d cl url = Some r \<Longrightarrow> crawl (n + k) w d cl url = Some r"
proof (induction n arbitrary: url r)
  case 0
  then show ?case by simp
next
  case (Suc n)
  then show ?case
    by (auto split: sum.splits option.splits if_splits)
qed

lemma crawl_cycle:
  "get w d cl url = Inr (items, url) \<Longrightarrow> url \<noteq> [] \<Longrightarrow> crawl n w d cl url = None"
  by (induction n) auto

text \<open>
  Claim C3, as amended. When the crawl of the private emails reads all its pages, and
  every email has an \<open>@\<close> if a preferred domain is configured, \<open>userEmail\<close> returns,
  in this order: the first verified email of the preferred domain; else the last email
  met that is verified and primary, if its address is not empty; else the explicit error.
  On a configured host every email counts as verified.
\<close>

theorem userEmail_choice:
  assumes "crawl n w (decodeEmails w) cl (apiURL c @ ''/user/emails'') = Some (Inr es)"
      and "preferredEmailDomain c \<noteq> [] \<longrightarrow> (\<forall>e\<in>set es. CHR ''@'' \<in> set (Email e))"
  shows "userEmail n c w cl =
           Some (if preferredOf c es \<noteq> [] then Inr (Email (hd (preferredOf c es)))
                 else if primariesOf c es \<noteq> [] \<and> Email (last (primariesOf c es)) \<noteq> []
                      then Inr (Email (last (primariesOf c es)))
                 else Inl NoUsableEmail)"
proof -
  have "userEmail n c w cl =
      Some (case scanEmails c es zeroUserEmail [] of
              Inl err \<Rightarrow> Inl err
            | Inr (p', q') \<Rightarrow> chooseEmail p' q')"
    unfolding userEmail_def using assms(1) by (rule userEmailLoop_crawl)
  also have "scanEmails c es zeroUserEmail [] =
      Inr (if primariesOf c es = [] then zeroUserEmail else last (primariesOf c es),
           [] @ preferredOf c es)"
    using assms(2) by (rule scanEmails_spec)
  finally show ?thesis
    by (cases "preferredOf c es") (simp_all add: chooseEmail_def zeroUserEmail_def)
qed

lemma get_twoPrimaries_1:
  "get worldTwoPrimaries (decodeEmails worldTwoPrimaries) tokenClient
      ''https://api.github.com/user/emails''
   = Inr ([mkEmail ''one@a.org'' True True], ''https://api.github.com/user/emails?page=2'')"
  by (simp add: get_def worldTwoPrimaries_def tableWorld_def emailPages_def ok200_def
      decodeTable_def getPagination_def reLast_def reNext_def matchAt_def relSuffix_def
      linkEntry_def)

lemma get_twoPrimaries_2:
  "get worldTwoPrimaries (decodeEmails worldTwoPrimaries) tokenClient
      ''https://api.github.com/user/emails?page=2''
   = Inr ([mkEmail ''two@a.org'' True True], [])"
  by (simp add: get_def worldTwoPrimaries_def tableWorld_def emailPages_def ok200_def
      decodeTable_def getPagination_def reLast_def reNext_def matchAt_def relSuffix_def
      linkEntry_def)

text \<open>The claim as stated fails when two emails are verified and primary: the crawl
  returns the second, not the first.\<close>

theorem userEmail_returns_last_primary:
  "crawl 2 worldTwoPrimaries (decodeEmails worldTwoPrimaries) tokenClient
      ''https://api.github.com/user/emails''
      = Some (Inr [mkEmail ''one@a.org'' True True, mkEmail ''two@a.org'' True True])
   \<and> preferredEmailDomain publicConnector = []
   \<and> userEmail 2 publicConnector worldTwoPrimaries tokenClient = Some (Inr ''two@a.org'')"
  by (simp add: userEmail_def numeral_2_eq_2 get_twoPrimaries_1 get_twoPrimaries_2
      publicConnector_def zeroUserEmail_def mkEmail_def chooseEmail_def Let_def)

lemma get_preferred_1:
  "get worldPreferred (decodeEmails worldPreferred) tokenClient
      ''https://api.github.com/user/emails''
   = Inr ([mkEmail ''p@a.org'' True True, mkEmail ''u@m.b.org'' False False],
          ''https://api.github.com/user/emails?page=2'')"
  by (simp add: get_def worldPreferred_def tableWorld_def emailPages_def ok200_def
      decodeTable_def getPagination_def reLast_def reNext_def matchAt_def relSuffix_def
      linkEntry_def)

lemma get_preferred_2:
  "get worldPreferred (decodeEmails worldPreferred) tokenClient
      ''https://api.github.com/user/emails?page=2''
   = Inr ([mkEmail ''v@m.b.org'' True False, mkEmail ''w@m.b.org'' True False], [])"
  by (simp add: get_def worldPreferred_def tableWorld_def emailPages_def ok200_def
      decodeTable_def getPagination_def reLast_def reNext_def matchAt_def relSuffix_def
      linkEntry_def)

theorem userEmail_choice_witness:
  "userEmail 2 (publicConnector\<lparr>preferredEmailDomain := ''*.b.org''\<rparr>) worldPreferred tokenClient
     = Some (Inr ''v@m.b.org'')
   \<and> userEmail 2 publicConnector worldPreferred tokenClient = Some (Inr ''p@a.org'')"
proof -
  let ?c = "publicConnector\<lparr>preferredEmailDomain := ''*.b.org''\<rparr>"
  let ?es = "[mkEmail ''p@a.org'' True True, mkEmail ''u@m.b.org'' False False,
              mkEmail ''v@m.b.org'' True False, mkEmail ''w@m.b.org'' True False]"
  have cr: "crawl 2 worldPreferred (decodeEmails worldPreferred) tokenClient
      ''https://api.github.com/user/emails'' = Some (Inr ?es)"
    by (simp add: numeral_2_eq_2 get_preferred_1 get_preferred_2)
  have u1: "apiURL ?c @ ''/user/emails'' = ''https://api.github.com/user/emails''"
    and u2: "apiURL publicConnector @ ''/user/emails'' = ''https://api.github.com/user/emails''"
    by (simp_all add: publicConnector_def)
  have at: "\<forall>e\<in>set ?es. CHR ''@'' \<in> set (Email e)"
    by (simp add: mkEmail_def)
  have pd: "preferredEmailDomain ?c = ''*.b.org''" "preferredEmailDomain publicConnector = []"
    "hostName ?c = []" "hostName publicConnector = []"
    by (simp_all add: publicConnector_def)
  have d: "domainPart (mkEmail ''p@a.org'' True True) = ''a.org''"
    "domainPart (mkEmail ''v@m.b.org'' True False) = ''m.b.org''"
    "domainPart (mkEmail ''w@m.b.org'' True False) = ''m.b.org''"
    by (simp_all add: domainPart_def mkEmail_def Cut_def)
  have m: "\<not> isPreferredEmailDomain ?c ''a.org''" "isPreferredEmailDomain ?c ''m.b.org''"
    by (simp_all add: isPreferredEmailDomain_def pd)
  have v: "Verified (mkEmail a b p) = b" "Primary (mkEmail a b p) = p" "Email (mkEmail a b p) = a"
    for a b p by (simp_all add: mkEmail_def)
  have pref: "preferredOf ?c ?es = [mkEmail ''v@m.b.org'' True False, mkEmail ''w@m.b.org'' True False]"
    unfolding preferredOf_def effective_def by (simp add: pd d m v)
  have pref0: "preferredOf publicConnector ?es = []"
    by (simp add: preferredOf_def pd)
  have prim: "primariesOf publicConnector ?es = [mkEmail ''p@a.org'' True True]"
    unfolding primariesOf_def effective_def by (simp add: pd v)
  have a: "userEmail 2 ?c worldPreferred tokenClient = Some (Inr ''v@m.b.org'')"
    using userEmail_choice [of 2 worldPreferred tokenClient ?c ?es] cr at
    unfolding u1 pref by (simp add: v)
  have b: "userEmail 2 publicConnector worldPreferred tokenClient = Some (Inr ''p@a.org'')"
    using userEmail_choice [of 2 worldPreferred tokenClient publicConnector ?es] cr
    unfolding u2 pref0 prim by (simp add: v pd)
  show ?thesis using a b by simp
qed

subsection \<open>Teams and groups\<close>

text \<open>Each loop over the pages computes a function of the items of all pages.\<close>

lemma appendOrgTeams_eq:
  "appendOrgTeams c orgName ts groups = groups @ orgClaims c orgName ts"
  by (induction ts arbitrary: groups) (auto simp: orgClaims_def)

lemma orgClaims_append:
  "orgClaims c orgName (xs @ ys) = orgClaims c orgName xs @ orgClaims c orgName ys"
  by (simp add: orgClaims_def)

lemma teamsForOrgLoop_crawl:
  "teamsForOrgLoop n c w cl orgName url groups =
     map_option (\<lambda>r. case r of Inl err \<Rightarrow> Inl (GetTeams err)
                              | Inr ts \<Rightarrow> Inr (groups @ orgClaims c orgName ts))
       (crawl n w (decodeTeams w) cl url)"
proof (induction n arbitrary: url groups)
  case 0
  then show ?case by simp
next
  case (Suc n)
  show ?case
  proof (cases "get w (decodeTeams w) cl url")
    case (Inl err)
    then show ?thesis by simp
  next
    case (Inr p)
    obtain teams nxt where p: "p = (teams, nxt)" by (cases p)
    show ?thesis
      using Inr p Suc.IH [of nxt "groups @ orgClaims c orgName teams"]
      by (cases "crawl n w (decodeTeams w) cl nxt")
         (auto simp: appendOrgTeams_eq orgClaims_append split: sum.splits)
  qed
qed

lemma teamsForOrg_crawl:
  "teamsForOrg n c w cl orgName =
     map_option (\<lambda>r. case r of Inl err \<Rightarrow> Inl (GetTeams err)
                              | Inr ts \<Rightarrow> Inr (orgClaims c orgName ts))
       (crawl n w (decodeTeams w) cl (apiURL c @ ''/user/teams''))"
  unfolding teamsForOrg_def teamsForOrgLoop_crawl
  by (cases "crawl n w (decodeTeams w) cl (apiURL c @ ''/user/teams'')")
     (auto split: sum.splits)

lemma groupsForOrgsLoop_no_member:
  "\<forall>og\<in>set ogs. userInOrg c w cl u (Org_Name og) = Inr False \<Longrightarrow>
   groupsForOrgsLoop n c w cl u ogs groups flag = Some (Inr (groups, flag))"
  by (induction ogs arbitrary: groups flag) auto

lemma groupsForOrgsLoop_spec:
  assumes "crawl n w (decodeTeams w) cl (apiURL c @ ''/user/teams'') = Some (Inr ts)"
  shows "\<forall>og\<in>set ogs. \<exists>b. userInOrg c w cl u (Org_Name og) = Inr b \<Longrightarrow>
   groupsForOrgsLoop n c w cl u ogs groups flag =
     Some (Inr (groups @ concat (map (orgGroups c w cl u ts) ogs),
                flag \<or> (\<exists>og\<in>set ogs. userInOrg c w cl u (Org_Name og) = Inr True \<and> Org_Teams og = [])))"
proof (induction ogs arbitrary: groups flag)
  case Nil
  then show ?case by simp
next
  case (Cons og ogs)
  from Cons.prems obtain b where b: "userInOrg c w cl u (Org_Name og) = Inr b" by auto
  have t: "teamsForOrg n c w cl (Org_Name og) = Some (Inr (orgClaims c (Org_Name og) ts))"
    by (simp add: teamsForOrg_crawl assms)
  have IH: "groupsForOrgsLoop n c w cl u ogs g f =
     Some (Inr (g @ concat (map (orgGroups c w cl u ts) ogs),
                f \<or> (\<exists>og\<in>set ogs. userInOrg c w cl u (Org_Name og) = Inr True \<and> Org_Teams og = [])))" for g f
    using Cons.IH Cons.prems by simp
  show ?case
  proof (cases b)
    case False
    then have "orgGroups c w cl u ts og = []" using b by (simp add: orgGroups_def)
    then show ?thesis using False b IH by simp
  next
    case True
    then have "orgGroups c w cl u ts og =
        map (formatTeamName (Org_Name og))
          (if Org_Teams og = [] then orgClaims c (Org_Name og) ts
           else Filter (orgClaims c (Org_Name og) ts) (Org_Teams og))"
      using b by (simp add: orgGroups_def)
    then show ?thesis using True b t IH by (auto simp: Let_def)
  qed
qed

lemma concat_orgGroups_nonempty:
  "concat (map (orgGroups c w cl u ts) ogs) \<noteq> [] \<Longrightarrow>
   \<exists>og\<in>set ogs. orgAuthorizes c w cl u ts og"
  by (induction ogs)
     (auto simp: orgGroups_def orgAuthorizes_def Filter_def filter_empty_conv split: if_splits)

lemma orgAuthorizes_cases:
  "orgAuthorizes c w cl u ts og \<Longrightarrow>
   (userInOrg c w cl u (Org_Name og) = Inr True \<and> Org_Teams og = []) \<or> orgGroups c w cl u ts og \<noteq> []"
  by (auto simp: orgGroups_def orgAuthorizes_def Filter_def filter_empty_conv)

lemma groupsForOrgs_spec:
  assumes "crawl n w (decodeTeams w) cl (apiURL c @ ''/user/teams'') = Some (Inr ts)"
      and "\<forall>og\<in>set (orgs c). \<exists>b. userInOrg c w cl u (Org_Name og) = Inr b"
  shows "groupsForOrgs n c w cl u =
           Some (if \<exists>og\<in>set (orgs c). orgAuthorizes c w cl u ts og
                 then Inr (concat (map (orgGroups c w cl u ts) (orgs c)))
                 else Inl (NotInRequiredOrgs u))"
proof -
  let ?gs = "concat (map (orgGroups c w cl u ts) (orgs c))"
  let ?flag = "\<exists>og\<in>set (orgs c). userInOrg c w cl u (Org_Name og) = Inr True \<and> Org_Teams og = []"
  have loop: "groupsForOrgsLoop n c w cl u (orgs c) [] False = Some (Inr (?gs, ?flag))"
    using groupsForOrgsLoop_spec [OF assms(1), of "orgs c" u "[]" False] assms(2) by simp
  have iff: "(?flag \<or> ?gs \<noteq> []) = (\<exists>og\<in>set (orgs c). orgAuthorizes c w cl u ts og)"
  proof
    assume "?flag \<or> ?gs \<noteq> []"
    then show "\<exists>og\<in>set (orgs c). orgAuthorizes c w cl u ts og"
      using concat_orgGroups_nonempty [of c w cl u ts "orgs c"]
      by (auto simp: orgAuthorizes_def)
  next
    assume "\<exists>og\<in>set (orgs c). orgAuthorizes c w cl u ts og"
    then obtain og where og: "og \<in> set (orgs c)" "orgAuthorizes c w cl u ts og" by auto
    from orgAuthorizes_cases [OF og(2)] og(1) show "?flag \<or> ?gs \<noteq> []" by auto
  qed
  show ?thesis
    unfolding groupsForOrgs_def loop using iff by simp
qed

lemma groupsForOrgsLoop_success:
  "groupsForOrgsLoop n c w cl u ogs groups flag = Some (Inr r) \<Longrightarrow>
   (\<forall>og\<in>set ogs. \<exists>b. userInOrg c w cl u (Org_Name og) = Inr b) \<and>
   ((\<exists>og\<in>set ogs. userInOrg c w cl u (Org_Name og) = Inr True) \<longrightarrow>
      (\<exists>ts. crawl n w (decodeTeams w) cl (apiURL c @ ''/user/teams'') = Some (Inr ts)))"
proof (induction ogs arbitrary: groups flag)
  case Nil
  then show ?case by simp
next
  case (Cons og ogs)
  from Cons.prems obtain b where b: "userInOrg c w cl u (Org_Name og) = Inr b"
    by (auto split: sum.splits)
  show ?case
  proof (cases b)
    case False
    with Cons.prems b have "groupsForOrgsLoop n c w cl u ogs groups flag = Some (Inr r)" by simp
    from Cons.IH [OF this] b False show ?thesis by auto
  next
    case True
    with Cons.prems b obtain teams where
      t: "teamsForOrg n c w cl (Org_Name og) = Some (Inr teams)"
      by (auto split: option.splits sum.splits)
    then have cr: "\<exists>ts. crawl n w (decodeTeams w) cl (apiURL c @ ''/user/teams'') = Some (Inr ts)"
      unfolding teamsForOrg_crawl
      by (cases "crawl n w (decodeTeams w) cl (apiURL c @ ''/user/teams'')")
         (auto split: sum.splits)
    from Cons.prems b True t obtain g' f' where
      "groupsForOrgsLoop n c w cl u ogs g' f' = Some (Inr r)"
      by (auto simp: Let_def)
    from Cons.IH [OF this] b cr show ?thesis by auto
  qed
qed

lemma groupsForOrgs_success:
  assumes "groupsForOrgs n c w cl u = Some (Inr gs)"
  shows "\<exists>ts. crawl n w (decodeTeams w) cl (apiURL c @ ''/user/teams'') = Some (Inr ts)
           \<and> (\<forall>og\<in>set (orgs c). \<exists>b. userInOrg c w cl u (Org_Name og) = Inr b)
           \<and> (\<exists>og\<in>set (orgs c). orgAuthorizes c w cl u ts og)
           \<and> gs = concat (map (orgGroups c w cl u ts) (orgs c))"
proof -
  from assms obtain g f where
    loop: "groupsForOrgsLoop n c w cl u (orgs c) [] False = Some (Inr (g, f))"
    by (auto simp: groupsForOrgs_def split: option.splits sum.splits)
  note s = groupsForOrgsLoop_success [OF loop]
  then have ok: "\<forall>og\<in>set (orgs c). \<exists>b. userInOrg c w cl u (Org_Name og) = Inr b" by simp
  have mem: "\<exists>og\<in>set (orgs c). userInOrg c w cl u (Org_Name og) = Inr True"
  proof (rule ccontr)
    assume "\<not> ?thesis"
    with ok have "\<forall>og\<in>set (orgs c). userInOrg c w cl u (Org_Name og) = Inr False" by fastforce
    from groupsForOrgsLoop_no_member [OF this, of n "[]" False] assms show False
      by (simp add: groupsForOrgs_def)
  qed
  with s obtain ts where
    cr: "crawl n w (decodeTeams w) cl (apiURL c @ ''/user/teams'') = Some (Inr ts)" by auto
  from groupsForOrgs_spec [OF cr ok] assms cr ok show ?thesis
    by (auto split: if_splits)
qed

lemma addTeamClaims_append:
  "addTeamClaims c (xs @ ys) m = addTeamClaims c ys (addTeamClaims c xs m)"
  by (induction xs arbitrary: m) auto

lemma addTeamClaims_lookup:
  "addTeamClaims c ts m k =
     (if \<exists>t\<in>set ts. org_Login (team_Org t) = k
      then Some ((case m k of None \<Rightarrow> [] | Some g \<Rightarrow> g) @ orgClaims c k ts)
      else m k)"
  by (induction ts arbitrary: m) (auto simp: orgClaims_def)

lemma userOrgTeamsLoop_crawl:
  "userOrgTeamsLoop n c w cl url m =
     map_option (\<lambda>r. case r of Inl err \<Rightarrow> Inl (GetTeams err)
                              | Inr ts \<Rightarrow> Inr (addTeamClaims c ts m))
       (crawl n w (decodeTeams w) cl url)"
proof (induction n arbitrary: url m)
  case 0
  then show ?case by simp
next
  case (Suc n)
  show ?case
  proof (cases "get w (decodeTeams w) cl url")
    case (Inl err)
    then show ?thesis by simp
  next
    case (Inr p)
    obtain teams nxt where p: "p = (teams, nxt)" by (cases p)
    show ?thesis
      using Inr p Suc.IH [of nxt "addTeamClaims c teams m"]
      by (cases "crawl n w (decodeTeams w) cl nxt")
         (auto simp: addTeamClaims_append split: sum.splits)
  qed
qed

lemma userOrgsLoop_crawl:
  "userOrgsLoop n c w cl url groups =
     map_option (\<lambda>r. case r of Inl err \<Rightarrow> Inl (GetOrgs err)
                              | Inr os \<Rightarrow> Inr (groups @ map org_Login os))
       (crawl n w (decodeOrgs w) cl url)"
proof (induction n arbitrary: url groups)
  case 0
  then show ?case by simp
next
  case (Suc n)
  show ?case
  proof (cases "get w (decodeOrgs w) cl url")
    case (Inl err)
    then show ?thesis by simp
  next
    case (Inr p)
    obtain os nxt where p: "p = (os, nxt)" by (cases p)
    show ?thesis
      using Inr p Suc.IH [of nxt "groups @ map org_Login os"]
      by (cases "crawl n w (decodeOrgs w) cl nxt")
         (auto split: sum.splits)
  qed
qed

lemma joinOrgTeams_eq:
  "joinOrgTeams m ogs groups =
     groups @ concat (map (\<lambda>og. og # (case m og of Some teams \<Rightarrow> map (formatTeamName og) teams
                                               | None \<Rightarrow> [])) ogs)"
  by (induction ogs arbitrary: groups) (auto split: option.splits)

lemma userGroups_spec:
  assumes "crawl n w (decodeOrgs w) cl (apiURL c @ ''/user/orgs'') = Some (Inr os)"
      and "crawl n w (decodeTeams w) cl (apiURL c @ ''/user/teams'') = Some (Inr ts)"
  shows "userGroups n c w cl =
     Some (Inr (concat (map (\<lambda>og. og # map (formatTeamName og) (orgClaims c og ts))
                          (map org_Login os))))"
proof -
  have a: "userOrgs n c w cl = Some (Inr (map org_Login os))"
    by (simp add: userOrgs_def userOrgsLoop_crawl assms(1))
  have b: "userOrgTeams n c w cl = Some (Inr (addTeamClaims c ts Map.empty))"
    by (simp add: userOrgTeams_def userOrgTeamsLoop_crawl assms(2))
  have e: "(case addTeamClaims c ts Map.empty og of
              Some teams \<Rightarrow> map (formatTeamName og) teams | None \<Rightarrow> [])
           = map (formatTeamName og) (orgClaims c og ts)" for og
    by (auto simp: addTeamClaims_lookup orgClaims_def filter_empty_conv)
  show ?thesis
    by (simp add: userGroups_def a b joinOrgTeams_eq e)
qed

text \<open>The example worlds, evaluated.\<close>

lemma get_worldOrgs_teams:
  "get (worldOrgs ts) (decodeTeams (worldOrgs ts)) cl ''https://api.github.com/user/teams''
     = Inr (ts, [])"
  by (simp add: get_def worldOrgs_def tableWorld_def ok200_def decodeTable_def
      getPagination_def reLast_def)

lemma crawl_worldOrgs_teams:
  "crawl (Suc n) (worldOrgs ts) (decodeTeams (worldOrgs ts)) cl ''https://api.github.com/user/teams''
     = Some (Inr ts)"
  by (simp add: get_worldOrgs_teams)

lemma get_worldOrgs_orgs:
  "get (worldOrgs ts) (decodeOrgs (worldOrgs ts)) cl ''https://api.github.com/user/orgs''
     = Inr ([\<lparr>org_Login = ''A''\<rparr>, \<lparr>org_Login = ''B''\<rparr>], [])"
  by (simp add: get_def worldOrgs_def tableWorld_def ok200_def decodeTable_def
      getPagination_def reLast_def)

lemma get_worldOrgs_user:
  "get (worldOrgs ts) (decodeUser (worldOrgs ts)) cl ''https://api.github.com/user''
     = Inr (octocat, [])"
  by (simp add: get_def worldOrgs_def tableWorld_def ok200_def decodeTable_def
      getPagination_def reLast_def)

lemma userInOrg_worldOrgs:
  assumes "apiURL c = ''https://api.github.com''"
  shows "userInOrg c (worldOrgs ts) cl ''octocat'' ''A'' = Inr True"
    and "userInOrg c (worldOrgs ts) cl ''octocat'' ''B'' = Inr True"
    and "userInOrg c (worldOrgs ts) cl ''octocat'' ''C'' = Inr False"
  by (simp_all add: userInOrg_def assms worldOrgs_def tableWorld_def status_def)

lemma orgConnector_fields:
  "apiURL orgConnector = ''https://api.github.com''"
  "orgs orgConnector = [\<lparr>Org_Name = ''A'', Org_Teams = [''x'']\<rparr>,
       \<lparr>Org_Name = ''B'', Org_Teams = []\<rparr>, \<lparr>Org_Name = ''C'', Org_Teams = []\<rparr>]"
  "teamNameField orgConnector = []" "org orgConnector = []"
  "noreplyPrivateEmail orgConnector = False" "preferredEmailDomain orgConnector = []"
  "hostName orgConnector = []" "useLoginAsID orgConnector = False" "httpClient orgConnector = False"
  by (simp_all add: orgConnector_def publicConnector_def)

lemma legacyConnector_fields:
  "apiURL legacyConnector = ''https://api.github.com''"
  "orgs legacyConnector = []" "org legacyConnector = ''A''"
  "teamNameField legacyConnector = ''both''"
  by (simp_all add: legacyConnector_def publicConnector_def)

lemma teamsForOrg_worldOrgs:
  assumes "apiURL c = ''https://api.github.com''"
  shows "teamsForOrg (Suc n) c (worldOrgs ts) cl orgName = Some (Inr (orgClaims c orgName ts))"
  by (simp add: teamsForOrg_crawl assms crawl_worldOrgs_teams del: crawl.simps)

lemma orgClaims_name:
  "teamNameField c \<noteq> ''both'' \<Longrightarrow> teamNameField c \<noteq> ''slug'' \<Longrightarrow>
   orgClaims c orgName ts = map team_Name (filter (\<lambda>t. org_Login (team_Org t) = orgName) ts)"
  by (induction ts) (auto simp: orgClaims_def teamGroupClaims_def)

lemma groupsForOrgs_example:
  "groupsForOrgs (Suc n) orgConnector (worldOrgs [mkTeam ''A'' ''x'' ''x'']) tokenClient ''octocat''
     = Some (Inr [''A:x''])"
  by (simp add: groupsForOrgs_def orgConnector_fields userInOrg_worldOrgs teamsForOrg_worldOrgs
      orgClaims_name mkTeam_def Filter_def formatTeamName_def)

lemma groupsForOrgs_example2:
  "groupsForOrgs (Suc n) orgConnector (worldOrgs [mkTeam ''A'' ''x'' ''x'', mkTeam ''B'' ''y'' ''y'']) tokenClient ''octocat''
     = Some (Inr [''A:x'', ''B:y''])"
  by (simp add: groupsForOrgs_def orgConnector_fields userInOrg_worldOrgs teamsForOrg_worldOrgs
      orgClaims_name mkTeam_def Filter_def formatTeamName_def)

text \<open>
  Claim C7, as amended. For every team, the projection mode \<open>both\<close> gives two strings,
  the name and the slug, and the modes \<open>name\<close> and \<open>slug\<close> (and the default) give
  one. When the crawl of the teams reads all its pages: in legacy single-org mode the
  groups are these strings of the teams of the configured org, with no prefix; in
  org-list mode each org the user is a member of adds them behind \<open>org:\<close>, and with an
  allow-list only the strings that are in the allow-list themselves; in load-all mode
  each org of the user is followed by these strings of its teams behind \<open>org:\<close>.
\<close>

theorem team_projection:
  "length (teamGroupClaims c t) = (if teamNameField c = ''both'' then 2 else 1)
   \<and> (teamNameField c = ''both'' \<longrightarrow> teamGroupClaims c t = [team_Name t, team_Slug t])
   \<and> (teamNameField c = ''slug'' \<longrightarrow> teamGroupClaims c t = [team_Slug t])
   \<and> (teamNameField c = ''name'' \<or> teamNameField c = [] \<longrightarrow> teamGroupClaims c t = [team_Name t])
   \<and> (crawl n w (decodeTeams w) cl (apiURL c @ ''/user/teams'') = Some (Inr ts) \<longrightarrow>
        (orgs c = [] \<and> org c \<noteq> [] \<longrightarrow>
           getGroups n c w cl gs u = Some (Inr (orgClaims c (org c) ts)))
        \<and> (orgs c \<noteq> [] \<and> getGroups n c w cl gs u = Some (Inr groups) \<longrightarrow>
             groups = concat (map (orgGroups c w cl u ts) (orgs c)))
        \<and> (orgs c = [] \<and> org c = [] \<and> gs \<and> loadAllGroups c
             \<and> crawl n w (decodeOrgs w) cl (apiURL c @ ''/user/orgs'') = Some (Inr os) \<longrightarrow>
             getGroups n c w cl gs u =
               Some (Inr (concat (map (\<lambda>og. og # map (formatTeamName og) (orgClaims c og ts))
                                    (map org_Login os))))))"
proof -
  have p: "length (teamGroupClaims c t) = (if teamNameField c = ''both'' then 2 else 1)"
    "teamNameField c = ''both'' \<longrightarrow> teamGroupClaims c t = [team_Name t, team_Slug t]"
    "teamNameField c = ''slug'' \<longrightarrow> teamGroupClaims c t = [team_Slug t]"
    "teamNameField c = ''name'' \<or> teamNameField c = [] \<longrightarrow> teamGroupClaims c t = [team_Name t]"
    by (auto simp: teamGroupClaims_def)
  have legacy: "getGroups n c w cl gs u = Some (Inr (orgClaims c (org c) ts))"
    if "crawl n w (decodeTeams w) cl (apiURL c @ ''/user/teams'') = Some (Inr ts)"
      and "orgs c = []" "org c \<noteq> []"
    using that by (simp add: getGroups_def teamsForOrg_crawl)
  have orglist: "groups = concat (map (orgGroups c w cl u ts) (orgs c))"
    if cr: "crawl n w (decodeTeams w) cl (apiURL c @ ''/user/teams'') = Some (Inr ts)"
      and "orgs c \<noteq> []" "getGroups n c w cl gs u = Some (Inr groups)"
  proof -
    from that have "groupsForOrgs n c w cl u = Some (Inr groups)" by (simp add: getGroups_def)
    from groupsForOrgs_success [OF this] cr show ?thesis by auto
  qed
  have loadall: "getGroups n c w cl gs u =
               Some (Inr (concat (map (\<lambda>og. og # map (formatTeamName og) (orgClaims c og ts))
                                    (map org_Login os))))"
    if "crawl n w (decodeTeams w) cl (apiURL c @ ''/user/teams'') = Some (Inr ts)"
      and "orgs c = []" "org c = []" "gs" "loadAllGroups c"
      and "crawl n w (decodeOrgs w) cl (apiURL c @ ''/user/orgs'') = Some (Inr os)"
    using userGroups_spec [OF that(6,1)] that(2-5) by (simp add: getGroups_def)
  show ?thesis using p legacy orglist loadall by blast
qed

text \<open>The claim as stated fails in legacy single-org mode: the two strings of a team
  are the name and the slug without the org.\<close>

theorem legacy_groups_unprefixed:
  "orgs legacyConnector = [] \<and> org legacyConnector = ''A''
   \<and> teamNameField legacyConnector = ''both''
   \<and> getGroups 1 legacyConnector (worldOrgs [mkTeam ''A'' ''x'' ''x-slug'']) tokenClient False ''octocat''
      = Some (Inr [''x'', ''x-slug''])"
  by (simp add: getGroups_def legacyConnector_fields teamsForOrg_worldOrgs orgClaims_def
      teamGroupClaims_def mkTeam_def)

theorem team_projection_witness:
  "teamGroupClaims legacyConnector (mkTeam ''A'' ''x'' ''x-slug'') = [''x'', ''x-slug'']
   \<and> getGroups 1 legacyConnector (worldOrgs [mkTeam ''A'' ''x'' ''x-slug'', mkTeam ''B'' ''y'' ''y''])
        tokenClient False ''octocat'' = Some (Inr [''x'', ''x-slug''])
   \<and> getGroups 1 (publicConnector\<lparr>loadAllGroups := True, teamNameField := ''slug''\<rparr>)
        (worldOrgs [mkTeam ''A'' ''x'' ''x-slug'', mkTeam ''B'' ''y'' ''y''])
        tokenClient True ''octocat'' = Some (Inr [''A'', ''A:x-slug'', ''B'', ''B:y''])"
proof -
  let ?ts = "[mkTeam ''A'' ''x'' ''x-slug'', mkTeam ''B'' ''y'' ''y'']"
  let ?w = "worldOrgs ?ts"
  let ?l = "publicConnector\<lparr>loadAllGroups := True, teamNameField := ''slug''\<rparr>"
  let ?os = "[\<lparr>org_Login = ''A''\<rparr>, \<lparr>org_Login = ''B''\<rparr>]"
  have f: "apiURL ?l = ''https://api.github.com''" "orgs ?l = []" "org ?l = []" "loadAllGroups ?l"
    "teamNameField ?l = ''slug''"
    by (simp_all add: publicConnector_def)
  have cr: "crawl 1 ?w (decodeTeams ?w) tokenClient (apiURL legacyConnector @ ''/user/teams'') = Some (Inr ?ts)"
    using crawl_worldOrgs_teams [of 0 ?ts tokenClient] by (simp add: legacyConnector_fields)
  have cr': "crawl 1 ?w (decodeTeams ?w) tokenClient (apiURL ?l @ ''/user/teams'') = Some (Inr ?ts)"
    using crawl_worldOrgs_teams [of 0 ?ts tokenClient] by (simp add: f)
  have co: "crawl 1 ?w (decodeOrgs ?w) tokenClient (apiURL ?l @ ''/user/orgs'') = Some (Inr ?os)"
    using get_worldOrgs_orgs [of ?ts tokenClient] by (simp add: f)
  have t: "teamGroupClaims legacyConnector (mkTeam ''A'' ''x'' ''x-slug'') = [''x'', ''x-slug'']"
    using team_projection [of legacyConnector "mkTeam ''A'' ''x'' ''x-slug''"]
    by (simp add: legacyConnector_fields mkTeam_def)
  have c1: "orgClaims legacyConnector ''A'' ?ts = [''x'', ''x-slug'']"
    by (simp add: orgClaims_def teamGroupClaims_def legacyConnector_fields mkTeam_def)
  have c2: "orgClaims ?l ''A'' ?ts = [''x-slug'']" "orgClaims ?l ''B'' ?ts = [''y'']"
    by (simp_all add: orgClaims_def teamGroupClaims_def f mkTeam_def)
  have a: "getGroups 1 legacyConnector ?w tokenClient False ''octocat'' = Some (Inr [''x'', ''x-slug''])"
    using team_projection [of legacyConnector _ 1 ?w tokenClient ?ts False "''octocat''"] cr c1
    by (simp add: legacyConnector_fields)
  have b: "getGroups 1 ?l ?w tokenClient True ''octocat'' = Some (Inr [''A'', ''A:x-slug'', ''B'', ''B:y''])"
    using team_projection [of ?l _ 1 ?w tokenClient ?ts True "''octocat''" _ ?os] cr' co c2 f(2-4)
    by (simp add: formatTeamName_def)
  show ?thesis using t a b by simp
qed

text \<open>
  Claim C1, as amended. In org-list mode, when every membership check is answered and
  the crawl of the teams reads all its pages, a configured org without an allow-list of
  which the user is a confirmed member makes the resolution succeed and adds one group
  string \<open>org:team\<close> for every team string of the user in that org (none when the user
  has no team there). For the user who is a member of \<open>A\<close> (allow-list \<open>[x]\<close>, team
  \<open>x\<close>), a member of \<open>B\<close> (no allow-list) with no team in \<open>B\<close>, and not a member
  of \<open>C\<close>, the groups are exactly \<open>[A:x]\<close>.
\<close>

theorem groupsForOrgs_unrestricted_org:
  assumes "crawl n w (decodeTeams w) cl (apiURL c @ ''/user/teams'') = Some (Inr ts)"
      and "\<forall>og\<in>set (orgs c). \<exists>b. userInOrg c w cl u (Org_Name og) = Inr b"
      and "og \<in> set (orgs c)"
      and "userInOrg c w cl u (Org_Name og) = Inr True"
      and "Org_Teams og = []"
  shows "groupsForOrgs n c w cl u = Some (Inr (concat (map (orgGroups c w cl u ts) (orgs c))))
         \<and> orgGroups c w cl u ts og = map (formatTeamName (Org_Name og)) (orgClaims c (Org_Name og) ts)
         \<and> groupsForOrgs 1 orgConnector (worldOrgs [mkTeam ''A'' ''x'' ''x'']) tokenClient ''octocat''
             = Some (Inr [''A:x''])"
proof -
  have "orgAuthorizes c w cl u ts og" using assms(4,5) by (simp add: orgAuthorizes_def)
  then have "\<exists>og\<in>set (orgs c). orgAuthorizes c w cl u ts og" using assms(3) by auto
  then have a: "groupsForOrgs n c w cl u = Some (Inr (concat (map (orgGroups c w cl u ts) (orgs c))))"
    using groupsForOrgs_spec [OF assms(1,2)] by simp
  have b: "orgGroups c w cl u ts og = map (formatTeamName (Org_Name og)) (orgClaims c (Org_Name og) ts)"
    using assms(4,5) by (simp add: orgGroups_def)
  show ?thesis using a b groupsForOrgs_example [of 0] by simp
qed

text \<open>The claim as stated fails when the user has a team in the org without an
  allow-list: the team is added to the groups.\<close>

theorem groupsForOrgs_adds_unrestricted_teams:
  "userInOrg orgConnector (worldOrgs [mkTeam ''A'' ''x'' ''x'', mkTeam ''B'' ''y'' ''y'']) tokenClient ''octocat'' ''A'' = Inr True
   \<and> userInOrg orgConnector (worldOrgs [mkTeam ''A'' ''x'' ''x'', mkTeam ''B'' ''y'' ''y'']) tokenClient ''octocat'' ''B'' = Inr True
   \<and> userInOrg orgConnector (worldOrgs [mkTeam ''A'' ''x'' ''x'', mkTeam ''B'' ''y'' ''y'']) tokenClient ''octocat'' ''C'' = Inr False
   \<and> groupsForOrgs 1 orgConnector (worldOrgs [mkTeam ''A'' ''x'' ''x'', mkTeam ''B'' ''y'' ''y'']) tokenClient ''octocat''
      = Some (Inr [''A:x'', ''B:y''])"
  using groupsForOrgs_example2 [of 0]
  by (simp add: userInOrg_worldOrgs orgConnector_fields)

theorem groupsForOrgs_unrestricted_org_witness:
  "orgGroups orgConnector (worldOrgs [mkTeam ''A'' ''x'' ''x'', mkTeam ''B'' ''y'' ''y'']) tokenClient ''octocat''
      [mkTeam ''A'' ''x'' ''x'', mkTeam ''B'' ''y'' ''y''] \<lparr>Org_Name = ''B'', Org_Teams = []\<rparr> = [''B:y'']
   \<and> groupsForOrgs 1 orgConnector (worldOrgs [mkTeam ''A'' ''x'' ''x'', mkTeam ''B'' ''y'' ''y'']) tokenClient ''octocat''
      = Some (Inr [''A:x'', ''B:y''])"
proof -
  let ?ts = "[mkTeam ''A'' ''x'' ''x'', mkTeam ''B'' ''y'' ''y'']"
  let ?w = "worldOrgs ?ts"
  let ?B = "\<lparr>Org_Name = ''B'', Org_Teams = []\<rparr>"
  have cr: "crawl 1 ?w (decodeTeams ?w) tokenClient (apiURL orgConnector @ ''/user/teams'') = Some (Inr ?ts)"
    using crawl_worldOrgs_teams [of 0 ?ts tokenClient] by (simp add: orgConnector_fields)
  have ok: "\<forall>og\<in>set (orgs orgConnector). \<exists>b. userInOrg orgConnector ?w tokenClient ''octocat'' (Org_Name og) = Inr b"
    by (auto simp: orgConnector_fields userInOrg_worldOrgs)
  have mem: "?B \<in> set (orgs orgConnector)" by (simp add: orgConnector_fields)
  have inB: "userInOrg orgConnector ?w tokenClient ''octocat'' (Org_Name ?B) = Inr True"
    by (simp add: orgConnector_fields userInOrg_worldOrgs)
  have cl: "orgClaims orgConnector ''A'' ?ts = [''x'']" "orgClaims orgConnector ''B'' ?ts = [''y'']"
    "orgClaims orgConnector ''C'' ?ts = []"
    by (simp_all add: orgClaims_name orgConnector_fields mkTeam_def)
  have og: "orgGroups orgConnector ?w tokenClient ''octocat'' ?ts \<lparr>Org_Name = ''A'', Org_Teams = [''x'']\<rparr> = [''A:x'']"
    "orgGroups orgConnector ?w tokenClient ''octocat'' ?ts \<lparr>Org_Name = ''C'', Org_Teams = []\<rparr> = []"
    by (simp_all add: orgGroups_def orgConnector_fields userInOrg_worldOrgs cl Filter_def formatTeamName_def)
  from groupsForOrgs_unrestricted_org [OF cr ok mem inB] cl og
  show ?thesis by (simp add: orgConnector_fields formatTeamName_def)
qed



subsection \<open>Login and refresh\<close>

lemma user_worldOrgs:
  "user n orgConnector (worldOrgs ts) cl = Some (Inr octocat)"
  by (simp add: user_def orgConnector_fields get_worldOrgs_user octocat_def)

lemma getGroups_worldOrgs:
  "getGroups (Suc n) orgConnector (worldOrgs [mkTeam ''A'' ''x'' ''x'']) tokenClient b ''octocat''
     = Some (Inr [''A:x''])"
  using groupsForOrgs_example [of n] by (simp add: getGroups_def orgConnector_fields)

lemma Refresh_example:
  "Refresh 1 orgConnector (worldOrgs [mkTeam ''A'' ''x'' ''x'']) allScopes oldIdentity
     = Some (Inr \<lparr>UserID = ''583231'', Username = ''The Octocat'', PreferredUsername = ''octocat'',
          identity_Email = ''octocat@github.com'', EmailVerified = False, Groups = [''A:x''],
          ConnectorData = ''token''\<rparr>)"
proof -
  have um: "unmarshalData (worldOrgs ts) d = Inr \<lparr>AccessToken = d\<rparr>" for ts d
    by (simp add: worldOrgs_def tableWorld_def)
  have tc: "\<lparr>clientToken = ''token'', customTransport = False\<rparr> = tokenClient"
    by (simp add: tokenClient_def)
  show ?thesis
    by (simp add: Refresh_def oldIdentity_def um tc user_worldOrgs withGroups_def
        groupsRequired_def orgConnector_fields allScopes_def getGroups_worldOrgs octocat_def)
qed

lemma HandleCallback_example:
  "HandleCallback 1 orgConnector (worldOrgs [mkTeam ''A'' ''x'' ''x'']) allScopes codeQuery
     = Some (Inr \<lparr>UserID = ''583231'', Username = ''The Octocat'', PreferredUsername = ''octocat'',
          identity_Email = ''octocat@github.com'', EmailVerified = True, Groups = [''A:x''],
          ConnectorData = ''token''\<rparr>)"
proof -
  have ex: "exchange (worldOrgs ts) cfg b ''code'' = Inr ''token''" for ts cfg b
    by (simp add: worldOrgs_def tableWorld_def)
  have ma: "marshalData (worldOrgs ts) d = Inr (AccessToken d)" for ts d
    by (simp add: worldOrgs_def tableWorld_def)
  have tc: "\<lparr>clientToken = ''token'', customTransport = False\<rparr> = tokenClient"
    by (simp add: tokenClient_def)
  have id: "itoa (user_ID octocat) = ''583231''"
    by (simp add: octocat_def itoa_def digits.simps)
  have wg: "withGroups (Suc 0) orgConnector (worldOrgs [mkTeam ''A'' ''x'' ''x'']) tokenClient allScopes
      ''octocat'' i = Some (Inr (i\<lparr>Groups := [''A:x'']\<rparr>))" for i
    by (simp add: withGroups_def groupsRequired_def orgConnector_fields allScopes_def
        getGroups_worldOrgs)
  have lg: "user_Login octocat = ''octocat''" by (simp add: octocat_def)
  show ?thesis
    unfolding HandleCallback_def
    by (simp add: codeQuery_def ex ma tc user_worldOrgs orgConnector_fields id lg wg)
       (simp add: octocat_def allScopes_def)
qed

text \<open>
  Claim C9. \<open>Refresh\<close> fails when the prior identity has no connector data. When it
  succeeds, the identity it returns is the prior one with the username, the preferred
  username and the email overwritten from the profile, and the groups overwritten when
  group resolution is required; the connector data, the user id and the email-verified
  flag are those of the prior identity.
\<close>

theorem Refresh_frame:
  "(ConnectorData ident = [] \<longrightarrow> Refresh n c w s ident = Some (Inl NoAccessToken))
   \<and> (Refresh n c w s ident = Some (Inr ident') \<longrightarrow>
        ConnectorData ident' = ConnectorData ident
        \<and> UserID ident' = UserID ident
        \<and> EmailVerified ident' = EmailVerified ident
        \<and> (\<exists>data u.
              unmarshalData w (ConnectorData ident) = Inr data
              \<and> user n c w \<lparr>clientToken = AccessToken data, customTransport = False\<rparr> = Some (Inr u)
              \<and> (if groupsRequired c (GroupsScope s)
                 then \<exists>groups.
                        getGroups n c w \<lparr>clientToken = AccessToken data, customTransport = False\<rparr>
                          (GroupsScope s) (user_Login u) = Some (Inr groups)
                        \<and> ident' = ident\<lparr>Username := (if user_Name u = [] then user_Login u else user_Name u),
                                          PreferredUsername := user_Login u,
                                          identity_Email := user_Email u,
                                          Groups := groups\<rparr>
                 else ident' = ident\<lparr>Username := (if user_Name u = [] then user_Login u else user_Name u),
                                     PreferredUsername := user_Login u,
                                     identity_Email := user_Email u\<rparr>)))"
proof (intro conjI impI)
  assume "ConnectorData ident = []"
  then show "Refresh n c w s ident = Some (Inl NoAccessToken)" by (simp add: Refresh_def)
next
  assume r: "Refresh n c w s ident = Some (Inr ident')"
  then have ne: "ConnectorData ident \<noteq> []" by (auto simp: Refresh_def)
  with r obtain data where d: "unmarshalData w (ConnectorData ident) = Inr data"
    by (auto simp: Refresh_def split: sum.splits)
  let ?cl = "\<lparr>clientToken = AccessToken data, customTransport = False\<rparr>"
  from r ne d obtain u where u: "user n c w ?cl = Some (Inr u)"
    by (auto simp: Refresh_def Let_def split: option.splits sum.splits)
  let ?i = "ident\<lparr>Username := (if user_Name u = [] then user_Login u else user_Name u),
                  PreferredUsername := user_Login u, identity_Email := user_Email u\<rparr>"
  from r ne d u have wg: "withGroups n c w ?cl s (user_Login u) ?i = Some (Inr ident')"
    by (simp add: Refresh_def Let_def)
  have shape: "if groupsRequired c (GroupsScope s)
       then \<exists>groups. getGroups n c w ?cl (GroupsScope s) (user_Login u) = Some (Inr groups)
                \<and> ident' = ?i\<lparr>Groups := groups\<rparr>
       else ident' = ?i"
    using wg by (auto simp: withGroups_def split: option.splits sum.splits if_splits)
  then show "ConnectorData ident' = ConnectorData ident"
    and "UserID ident' = UserID ident"
    and "EmailVerified ident' = EmailVerified ident"
    by (auto split: if_splits)
  from shape d u show "\<exists>data u.
              unmarshalData w (ConnectorData ident) = Inr data
              \<and> user n c w \<lparr>clientToken = AccessToken data, customTransport = False\<rparr> = Some (Inr u)
              \<and> (if groupsRequired c (GroupsScope s)
                 then \<exists>groups.
                        getGroups n c w \<lparr>clientToken = AccessToken data, customTransport = False\<rparr>
                          (GroupsScope s) (user_Login u) = Some (Inr groups)
                        \<and> ident' = ident\<lparr>Username := (if user_Name u = [] then user_Login u else user_Name u),
                                          PreferredUsername := user_Login u,
                                          identity_Email := user_Email u,
                                          Groups := groups\<rparr>
                 else ident' = ident\<lparr>Username := (if user_Name u = [] then user_Login u else user_Name u),
                                     PreferredUsername := user_Login u,
                                     identity_Email := user_Email u\<rparr>)"
    by (intro exI [of _ data] exI [of _ u]) (auto split: if_splits)
qed

theorem Refresh_frame_witness:
  "Refresh 1 orgConnector (worldOrgs [mkTeam ''A'' ''x'' ''x'']) allScopes oldIdentity
     = Some (Inr \<lparr>UserID = ''583231'', Username = ''The Octocat'', PreferredUsername = ''octocat'',
          identity_Email = ''octocat@github.com'', EmailVerified = False, Groups = [''A:x''],
          ConnectorData = ''token''\<rparr>)
   \<and> UserID oldIdentity = ''583231'' \<and> EmailVerified oldIdentity = False
   \<and> ConnectorData oldIdentity = ''token''
   \<and> Refresh 1 orgConnector (worldOrgs [mkTeam ''A'' ''x'' ''x'']) allScopes
        (oldIdentity\<lparr>ConnectorData := []\<rparr>) = Some (Inl NoAccessToken)"
  using Refresh_example
    Refresh_frame [of oldIdentity 1 orgConnector "worldOrgs [mkTeam ''A'' ''x'' ''x'']" allScopes]
    Refresh_frame [of "oldIdentity\<lparr>ConnectorData := []\<rparr>" 1 orgConnector
      "worldOrgs [mkTeam ''A'' ''x'' ''x'']" allScopes]
  by (simp add: oldIdentity_def)

text \<open>
  Claim C10. Every identity that \<open>HandleCallback\<close> returns has the email-verified flag
  set, whatever the configuration, the host and the upstream's answers; so has the one
  whose email is the public email of the profile.
\<close>

theorem HandleCallback_verified:
  "HandleCallback n c w s q = Some (Inr ident) \<Longrightarrow> EmailVerified ident"
  by (auto simp: HandleCallback_def withGroups_def Let_def
      split: if_splits sum.splits option.splits)

theorem HandleCallback_verified_witness:
  "HandleCallback 1 orgConnector (worldOrgs [mkTeam ''A'' ''x'' ''x'']) allScopes codeQuery
     = Some (Inr \<lparr>UserID = ''583231'', Username = ''The Octocat'', PreferredUsername = ''octocat'',
          identity_Email = ''octocat@github.com'', EmailVerified = True, Groups = [''A:x''],
          ConnectorData = ''token''\<rparr>)
   \<and> user_Email octocat = ''octocat@github.com''"
  using HandleCallback_example HandleCallback_verified [OF HandleCallback_example]
  by (simp add: octocat_def)

end
